theory Spec2Isabelle
  imports
    Complex_Main
    "HOL-Library.Sublist"
    "HOL-Library.Char_ord"
    "HOL-Library.List_Lexorder"
    "HOL-Library.Log_Nat"
    "HOL-Library.AList"
begin

text \<open>
  The analytics core of the standup tracker: the team metrics of \<open>storageService.js\<close>,
  the trends, recurring blockers, productivity score, insights and recommendations of
  \<open>dataHandler.js\<close>, and the follow-up questions of \<open>aiService.js\<close>. The first part holds
  the definitions, translated function by function, with the pieces of JavaScript they
  rest on (strings, doubles, \<open>sort\<close>, objects used as dictionaries); the second part
  holds the theorems. The values handed to the functions are of the types the callers
  pass: strings for names, timestamps and blocker texts, arrays for tasks and pull
  requests.
\<close>

section \<open>JavaScript strings\<close>

text \<open>
  A JavaScript string is modelled as a \<^typ>\<open>string\<close>, one \<^typ>\<open>char\<close> per UTF-16 code
  unit, for texts whose code units are below 256 (Latin-1). On these, \<open>toLowerCase\<close> maps
  \<open>A\<close>..\<open>Z\<close> to \<open>a\<close>..\<open>z\<close> and the accented capitals U+00C0..U+00DE, the multiplication
  sign U+00D7 apart, to the letters 32 places on, and leaves every other character as it
  is. \<open>s.substring(0, n)\<close> is \<open>take n s\<close>, and
  \<open>xs.slice(0, n)\<close> on an array is \<open>take n xs\<close>; both return the whole value when it
  is shorter than \<open>n\<close>.
\<close>

definition toLowerCaseChar :: "char \<Rightarrow> char" where
  "toLowerCaseChar c =
     (let n = (of_char c :: nat)
      in if (65 \<le> n \<and> n \<le> 90) \<or> (192 \<le> n \<and> n \<le> 222 \<and> n \<noteq> 215) then char_of (n + 32)
         else c)"

definition toLowerCase :: "string \<Rightarrow> string" where
  "toLowerCase s = map toLowerCaseChar s"

definition substring0 :: "nat \<Rightarrow> string \<Rightarrow> string" where
  "substring0 n s = take n s"

text \<open>\<open>s.includes(t)\<close>: \<open>t\<close> occurs in \<open>s\<close> as a contiguous run; the empty \<open>t\<close> always does.\<close>

fun js_includes :: "string \<Rightarrow> string \<Rightarrow> bool" where
  "js_includes [] t = (t = [])"
| "js_includes (c # s) t = (prefix t (c # s) \<or> js_includes s t)"

section \<open>JavaScript numbers\<close>

text \<open>
  A JavaScript number is an IEEE-754 double. The finite doubles are modelled as the
  rationals they denote, and every arithmetic operation rounds its exact result to the
  nearest double, ties to the even significand. \<open>binade x\<close> is the exponent \<open>e\<close> with
  \<open>2\<^sup>e \<le> x < 2\<^sup>e\<^sup>+\<^sup>1\<close>; a double in that binade is a multiple of \<open>2\<^sup>e\<^sup>-\<^sup>5\<^sup>2\<close>. The exponent range
  is not bounded here: the numbers of this program are counts below \<open>2\<^sup>5\<^sup>3\<close> and quotients
  and small multiples of them, far from overflow and from the subnormal range.
\<close>

definition round_half_even :: "rat \<Rightarrow> int" where
  "round_half_even q =
     (let f = \<lfloor>q\<rfloor>; r = q - of_int f
      in if r < 1 / 2 then f else if 1 / 2 < r then f + 1 else if even f then f else f + 1)"

definition binade :: "rat \<Rightarrow> int" where
  "binade x =
     (let d = bitlen (fst (quotient_of x)) - bitlen (snd (quotient_of x))
      in if 2 powi d \<le> x then d else d - 1)"

definition round_double :: "rat \<Rightarrow> rat" where
  "round_double x =
     (if x = 0 then 0
      else let u = 2 powi (binade \<bar>x\<bar> - 52)
           in sgn x * of_int (round_half_even (\<bar>x\<bar> / u)) * u)"

definition js_add :: "rat \<Rightarrow> rat \<Rightarrow> rat" where
  "js_add a b = round_double (a + b)"

definition js_sub :: "rat \<Rightarrow> rat \<Rightarrow> rat" where
  "js_sub a b = round_double (a - b)"

definition js_mul :: "rat \<Rightarrow> rat \<Rightarrow> rat" where
  "js_mul a b = round_double (a * b)"

text \<open>Division by a divisor that is not zero; the code divides by nothing else.\<close>

definition js_div :: "rat \<Rightarrow> rat \<Rightarrow> rat" where
  "js_div a b = round_double (a / b)"

text \<open>The literals \<open>1.2\<close> and \<open>0.8\<close> denote the doubles nearest to them.\<close>

definition lit_1_2 :: rat where
  "lit_1_2 = round_double (6 / 5)"

definition lit_0_8 :: rat where
  "lit_0_8 = round_double (4 / 5)"

text \<open>\<open>Math.round\<close>: the nearest integer, a tie going up.\<close>

definition Math_round :: "rat \<Rightarrow> rat" where
  "Math_round x = of_int \<lfloor>x + 1 / 2\<rfloor>"

section \<open>Recurring blockers (dataHandler.js, findRecurringBlockers)\<close>

text \<open>
  \<open>analyzeIndividualBlockers\<close> hands \<open>findRecurringBlockers\<close> a list of objects
  \<open>{date, blocker, followUpQuestions}\<close>; only \<open>blocker\<close> is read. The result is a list of
  objects \<open>{blocker, occurrences}\<close>.
\<close>

record blocker_entry =
  date :: string
  blocker :: string

record recurring_blocker =
  rb_blocker :: string
  occurrences :: nat

text \<open>
  The body of the \<open>forEach\<close> callback for the entry at \<open>index\<close>: the other entries whose
  text includes the first 20 characters of this one are collected, and when there is at
  least one, an object is pushed.
\<close>

definition similarBlockers :: "string list \<Rightarrow> nat \<Rightarrow> string list" where
  "similarBlockers blockerTexts index =
     map snd (filter (\<lambda>(otherIndex, other).
                otherIndex \<noteq> index \<and> js_includes other (substring0 20 (blockerTexts ! index)))
              (enumerate 0 blockerTexts))"

definition findRecurringBlockers :: "blocker_entry list \<Rightarrow> recurring_blocker list" where
  "findRecurringBlockers blockers =
     (let blockerTexts = map (\<lambda>b. toLowerCase (blocker b)) blockers;
          recurring = concat (map (\<lambda>index.
              if length (similarBlockers blockerTexts index) > 0
              then [\<lparr>rb_blocker = substring0 100 (blockerTexts ! index),
                     occurrences = length (similarBlockers blockerTexts index) + 1\<rparr>]
              else [])
            [0..<length blockerTexts])
      in take 3 recurring)"

section \<open>Follow-up questions (aiService.js)\<close>

text \<open>
  A value produced by \<open>JSON.parse\<close>. \<open>JSON.parse\<close> itself belongs to the engine, so the
  question generator takes it as a parameter \<open>JSON_parse\<close>, whose result \<open>None\<close> stands for
  the \<open>SyntaxError\<close> it throws.
\<close>

datatype json =
    JNull
  | JBool bool
  | JNumber rat
  | JString string
  | JArray "json list"
  | JObject "(string \<times> json) list"

text \<open>
  A standup record, with the fields the functions below read; \<open>jiraTasks\<close> and
  \<open>bitbucketPRs\<close> are absent (\<open>None\<close>) in a bare submission. A missing or empty
  \<open>blockers\<close> text is the empty string, which is falsy like \<open>undefined\<close>.
\<close>

type_synonym jira_task = string

record pull_request =
  title :: string
  state :: string

record standup =
  teamMemberName :: string
  timestamp :: string
  blockers :: string
  jiraTasks :: "jira_task list option"
  bitbucketPRs :: "pull_request list option"

text \<open>White space as \<open>trim\<close> and the regular expression class \<open>\s\<close> see it.\<close>

definition is_space :: "char \<Rightarrow> bool" where
  "is_space c = ((of_char c :: nat) \<in> {9, 10, 11, 12, 13, 32, 160})"

definition is_digit :: "char \<Rightarrow> bool" where
  "is_digit c = (48 \<le> (of_char c :: nat) \<and> (of_char c :: nat) \<le> 57)"

definition js_trim :: "string \<Rightarrow> string" where
  "js_trim s = rev (dropWhile is_space (rev (dropWhile is_space s)))"

definition endsWith :: "string \<Rightarrow> char \<Rightarrow> bool" where
  "endsWith s c = (s \<noteq> [] \<and> last s = c)"

text \<open>\<open>text.split('\n')\<close>: the pieces between line feeds; never the empty list.\<close>

fun split_lines :: "string \<Rightarrow> string list" where
  "split_lines [] = [[]]"
| "split_lines (c # cs) =
     (if c = CHR 0x0A then [] # split_lines cs
      else (case split_lines cs of [] \<Rightarrow> [[c]] | l # ls \<Rightarrow> (c # l) # ls))"

text \<open>\<open>replace(/^\d+\.\s*/, '')\<close> and \<open>replace(/^[-*]\s*/, '')\<close>.\<close>

definition strip_numbering :: "string \<Rightarrow> string" where
  "strip_numbering s =
     (let rest = dropWhile is_digit s
      in if takeWhile is_digit s \<noteq> [] \<and> rest \<noteq> [] \<and> hd rest = CHR ''.''
         then dropWhile is_space (tl rest) else s)"

definition strip_bullet :: "string \<Rightarrow> string" where
  "strip_bullet s =
     (if s \<noteq> [] \<and> (hd s = CHR ''-'' \<or> hd s = CHR ''*'')
      then dropWhile is_space (tl s) else s)"

definition extractQuestionsFromText :: "string \<Rightarrow> string list" where
  "extractQuestionsFromText text =
     concat (map (\<lambda>line.
        let trimmed = js_trim line
        in if endsWith trimmed CHR ''?'' \<and> length trimmed > 10
           then (let cleaned = js_trim (strip_bullet (strip_numbering trimmed))
                 in if length cleaned > 5 then [cleaned] else [])
           else [])
      (split_lines text))"

text \<open>The decimal text of a number, as a template literal prints a count.\<close>

fun string_of_nat :: "nat \<Rightarrow> string" where
  "string_of_nat n =
     (if n < 10 then [char_of (48 + n)]
      else string_of_nat (n div 10) @ [char_of (48 + n mod 10)])"

declare string_of_nat.simps [simp del]

definition generateFallbackQuestions ::
  "standup \<Rightarrow> jira_task list \<Rightarrow> pull_request list \<Rightarrow> string list" where
  "generateFallbackQuestions standupData tasks prs =
     (let q1 = (if blockers standupData \<noteq> [] \<and> toLowerCase (blockers standupData) \<noteq> ''none''
                   \<and> js_trim (blockers standupData) \<noteq> []
                then [''What specific help do you need to resolve the blocker: '' @ [CHR 0x22]
                        @ substring0 50 (blockers standupData) @ ''...'' @ [CHR 0x22] @ ''?'',
                      ''How long do you estimate it will take to resolve your current blockers?'']
                else []);
          openPRs = filter (\<lambda>pr. state pr = ''OPEN'') prs;
          q2 = (if length openPRs > 2
                then [''You have '' @ string_of_nat (length openPRs)
                        @ '' open PRs. Which ones are priority for review and merge?'']
                else []);
          q3 = (if length tasks > 5
                then [''With '' @ string_of_nat (length tasks)
                        @ '' assigned tasks, how are you prioritizing your work?'']
                else []);
          questions = q1 @ q2 @ q3
      in if length questions = 0
         then [''Are there any dependencies on other team members that might affect your today's plan?'',
               ''Do you need any additional resources or support to complete your planned work?'',
               ''Are there any risks or concerns about meeting your sprint commitments?'']
         else questions)"

text \<open>
  What the generative-text adapter does on one invocation, as far as
  \<open>generateFollowUpQuestions\<close> can tell:
  \<^item> \<open>SendRejects\<close>: \<open>bedrockClient.send\<close> throws or rejects (service error, throttling,
    timeout);
  \<^item> \<open>BodyNotJSON\<close>: the response arrives and \<open>JSON.parse\<close> of its body throws;
  \<^item> \<open>ContentRaises\<close>: reading \<open>responseBody.content[0].text\<close> raises a \<open>TypeError\<close>;
  \<^item> \<open>ContentUndefined\<close>: that read gives \<open>undefined\<close>; \<open>JSON.parse(undefined)\<close> throws,
    and so does \<open>undefined.split\<close> in \<open>extractQuestionsFromText\<close>;
  \<^item> \<open>ContentText content\<close>: that read gives the string \<open>content\<close>.
  The first two are caught by the outer \<open>catch\<close>, the next two by the inner one. A
  \<open>text\<close> that is neither a string nor \<open>undefined\<close> is left out: the text blocks of the
  model's response hold strings. The prompt built from the submission and its history
  only feeds the adapter, whose reply is arbitrary here, so it is not modelled. The
  submission, the tasks and the pull requests are of their types (a string, two arrays of
  objects), so the fallback generator itself raises nothing.
\<close>

datatype bedrock_reply =
    SendRejects
  | BodyNotJSON
  | ContentRaises
  | ContentUndefined
  | ContentText string

text \<open>
  The innermost \<open>try\<close>: \<open>questions = JSON.parse(content)\<close>, and when that throws,
  \<open>questions = extractQuestionsFromText(content)\<close>.
\<close>

definition parsed_or_scanned :: "(string \<Rightarrow> json option) \<Rightarrow> string \<Rightarrow> json" where
  "parsed_or_scanned JSON_parse content =
     (case JSON_parse content of
        Some parsed \<Rightarrow> parsed
      | None \<Rightarrow> JArray (map JString (extractQuestionsFromText content)))"

definition generateFollowUpQuestions ::
  "(string \<Rightarrow> json option) \<Rightarrow> bedrock_reply \<Rightarrow> standup \<Rightarrow> jira_task list
     \<Rightarrow> pull_request list \<Rightarrow> json list" where
  "generateFollowUpQuestions JSON_parse reply standupData tasks prs =
     (let fallback = map JString (generateFallbackQuestions standupData tasks prs)
      in case reply of
           SendRejects \<Rightarrow> fallback
         | BodyNotJSON \<Rightarrow> fallback
         | ContentRaises \<Rightarrow> take 5 fallback
         | ContentUndefined \<Rightarrow> take 5 fallback
         | ContentText content \<Rightarrow>
             take 5 (case parsed_or_scanned JSON_parse content of
                       JArray questions \<Rightarrow> if length questions = 0 then fallback else questions
                     | _ \<Rightarrow> fallback))"

section \<open>Follow-up questions for any submitted value (aiService.js)\<close>

text \<open>
  \<open>processStandup\<close> only checks that the submitted \<open>blockers\<close> is truthy, and the chat
  handler passes the empty string. So \<open>standupData.blockers\<close> can be any JSON value of the
  request body, not only a string. The two functions are modelled once more for such a
  submission, with the exceptions they raise as values: \<open>Inl\<close> is a raised error, \<open>Inr\<close> a
  returned value. For a \<open>blockers\<close> that is a string they are the functions above.
\<close>

datatype js_error = TypeError | SyntaxError | ServiceError

text \<open>Whether a value is truthy; an absent field, \<open>undefined\<close>, is falsy like \<open>null\<close>.\<close>

definition truthy :: "json \<Rightarrow> bool" where
  "truthy v =
     (case v of
        JNull \<Rightarrow> False
      | JBool b \<Rightarrow> b
      | JNumber n \<Rightarrow> n \<noteq> 0
      | JString s \<Rightarrow> s \<noteq> []
      | JArray xs \<Rightarrow> True
      | JObject members \<Rightarrow> True)"

text \<open>The submission \<open>standupData\<close>, with the one field the fallback generator reads.\<close>

record submission =
  submitted_blockers :: json

text \<open>
  \<open>standupData.blockers && standupData.blockers.toLowerCase() !== 'none' && ...\<close>: a falsy
  value ends the condition; a truthy value that is not a string has no \<open>toLowerCase\<close>, and
  calling it raises a \<open>TypeError\<close>.
\<close>

definition generateFallbackQuestions_any ::
  "submission \<Rightarrow> jira_task list \<Rightarrow> pull_request list \<Rightarrow> js_error + string list" where
  "generateFallbackQuestions_any standupData tasks prs =
     (let openPRs = filter (\<lambda>pr. state pr = ''OPEN'') prs;
          q2 = (if length openPRs > 2
                then [''You have '' @ string_of_nat (length openPRs)
                        @ '' open PRs. Which ones are priority for review and merge?'']
                else []);
          q3 = (if length tasks > 5
                then [''With '' @ string_of_nat (length tasks)
                        @ '' assigned tasks, how are you prioritizing your work?'']
                else []);
          finish = (\<lambda>q1.
            let questions = q1 @ q2 @ q3
            in if length questions = 0
               then [''Are there any dependencies on other team members that might affect your today's plan?'',
                     ''Do you need any additional resources or support to complete your planned work?'',
                     ''Are there any risks or concerns about meeting your sprint commitments?'']
               else questions)
      in case submitted_blockers standupData of
           JString b \<Rightarrow>
             Inr (finish
                   (if b \<noteq> [] \<and> toLowerCase b \<noteq> ''none'' \<and> js_trim b \<noteq> []
                    then [''What specific help do you need to resolve the blocker: '' @ [CHR 0x22]
                            @ substring0 50 b @ ''...'' @ [CHR 0x22] @ ''?'',
                          ''How long do you estimate it will take to resolve your current blockers?'']
                    else []))
         | v \<Rightarrow> if truthy v then Inl TypeError else Inr (finish []))"

text \<open>\<open>try { body } catch { handler }\<close>: the handler runs when the body raises, and what the
  handler raises goes on to the enclosing \<open>try\<close> or to the caller.\<close>

definition try_catch :: "js_error + 'a \<Rightarrow> js_error + 'a \<Rightarrow> js_error + 'a" where
  "try_catch body handler = (case body of Inl e \<Rightarrow> handler | Inr v \<Rightarrow> Inr v)"

text \<open>
  The outer \<open>try\<close> ends with \<open>return questions.slice(0, 5)\<close>, where \<open>questions\<close> comes from
  the inner \<open>try\<close>, whose \<open>catch\<close> calls the fallback generator; the outer \<open>catch\<close> returns
  what the fallback generator returns.
\<close>

definition generateFollowUpQuestions_any ::
  "(string \<Rightarrow> json option) \<Rightarrow> bedrock_reply \<Rightarrow> submission \<Rightarrow> jira_task list
     \<Rightarrow> pull_request list \<Rightarrow> js_error + json list" where
  "generateFollowUpQuestions_any JSON_parse reply standupData tasks prs =
     (let fallback = map_sum id (map JString) (generateFallbackQuestions_any standupData tasks prs);
          inner = (\<lambda>body. map_sum id (take 5) (try_catch body fallback))
      in case reply of
           SendRejects \<Rightarrow> try_catch (Inl ServiceError) fallback
         | BodyNotJSON \<Rightarrow> try_catch (Inl SyntaxError) fallback
         | ContentRaises \<Rightarrow> try_catch (inner (Inl TypeError)) fallback
         | ContentUndefined \<Rightarrow> try_catch (inner (Inl TypeError)) fallback
         | ContentText content \<Rightarrow>
             try_catch
               (inner (case parsed_or_scanned JSON_parse content of
                         JArray questions \<Rightarrow> if length questions = 0 then fallback else Inr questions
                       | _ \<Rightarrow> fallback))
               fallback)"

section \<open>Sorting an array\<close>

text \<open>
  \<open>Array.prototype.sort\<close> with a comparison function is stable. \<open>cmp a b\<close> is the number
  the comparison function returns, \<open>None\<close> when that is \<open>NaN\<close>, which \<open>sort\<close> reads as
  zero. Where the comparison function is a consistent ordering, the sorted array is
  determined by the language specification, and this insertion sort computes it; where
  it is not (a \<open>NaN\<close> among the results), the order is left to the engine, and the order
  computed here is only one of the possible ones: the theorems keep to consistent
  comparisons, or do not depend on the order.
\<close>

fun js_insort :: "('a \<Rightarrow> 'a \<Rightarrow> int option) \<Rightarrow> 'a \<Rightarrow> 'a list \<Rightarrow> 'a list" where
  "js_insort cmp x [] = [x]"
| "js_insort cmp x (y # ys) =
     (case cmp x y of
        Some d \<Rightarrow> if 0 < d then y # js_insort cmp x ys else x # y # ys
      | None \<Rightarrow> x # y # ys)"

definition js_sort :: "('a \<Rightarrow> 'a \<Rightarrow> int option) \<Rightarrow> 'a list \<Rightarrow> 'a list" where
  "js_sort cmp xs = foldr (js_insort cmp) xs []"

section \<open>Member trends (dataHandler.js, analyzeMemberTrends)\<close>

text \<open>
  The result is either the object \<open>{message}\<close> or the object
  \<open>{taskTrend, prTrend, blockerTrend}\<close>. Parsing a timestamp is the engine's:
  \<open>Date_value t\<close> is the number \<open>new Date(t)\<close> converts to in the subtraction, \<open>None\<close> when
  that is \<open>NaN\<close> (an invalid date). The counts are array lengths, below \<open>2\<^sup>3\<^sup>2\<close>, so the sum
  of three of them is exact and only the division rounds.
\<close>

record trends =
  taskTrend :: string
  prTrend :: string
  blockerTrend :: string

datatype trend_analysis = Message string | Trends trends

definition by_timestamp :: "(string \<Rightarrow> int option) \<Rightarrow> standup \<Rightarrow> standup \<Rightarrow> int option" where
  "by_timestamp Date_value a b =
     (case (Date_value (timestamp a), Date_value (timestamp b)) of
        (Some x, Some y) \<Rightarrow> Some (x - y)
      | _ \<Rightarrow> None)"

text \<open>\<open>u.jiraTasks?.length || 0\<close> and \<open>u.bitbucketPRs?.length || 0\<close>.\<close>

definition tasks_length :: "standup \<Rightarrow> nat" where
  "tasks_length u = (case jiraTasks u of None \<Rightarrow> 0 | Some ts \<Rightarrow> length ts)"

definition prs_length :: "standup \<Rightarrow> nat" where
  "prs_length u = (case bitbucketPRs u of None \<Rightarrow> 0 | Some ps \<Rightarrow> length ps)"

text \<open>\<open>xs.slice(-3)\<close>: the last three elements, all of them when there are fewer.\<close>

definition slice_last3 :: "'a list \<Rightarrow> 'a list" where
  "slice_last3 xs = drop (length xs - 3) xs"

text \<open>\<open>counts.reduce((sum, count) => sum + count, 0) / counts.length\<close>.\<close>

definition average :: "nat list \<Rightarrow> rat" where
  "average counts = js_div (of_nat (sum_list counts)) (of_nat (length counts))"

definition analyzeMemberTrends :: "(string \<Rightarrow> int option) \<Rightarrow> standup list \<Rightarrow> trend_analysis" where
  "analyzeMemberTrends Date_value recentUpdates =
     (if length recentUpdates < 3 then Message ''Not enough data for trend analysis''
      else
        let sortedUpdates = js_sort (by_timestamp Date_value) recentUpdates;
            recentAvgTasks = average (map tasks_length (slice_last3 sortedUpdates));
            earlierAvgTasks = average (map tasks_length (take 3 sortedUpdates));
            recentAvgPRs = average (map prs_length (slice_last3 sortedUpdates));
            earlierAvgPRs = average (map prs_length (take 3 sortedUpdates))
        in Trends \<lparr>
             taskTrend =
               (if recentAvgTasks > js_mul earlierAvgTasks lit_1_2 then ''increasing''
                else if recentAvgTasks < js_mul earlierAvgTasks lit_0_8 then ''decreasing''
                else ''stable''),
             prTrend =
               (if recentAvgPRs > js_mul earlierAvgPRs lit_1_2 then ''increasing''
                else if recentAvgPRs < js_mul earlierAvgPRs lit_0_8 then ''decreasing''
                else ''stable''),
             blockerTrend = ''stable'' \<rparr>)"

section \<open>Productivity score (dataHandler.js, calculateProductivityScore)\<close>

text \<open>
  The one caller passes totals of array lengths and the number of standups, so the
  arguments are counts.
\<close>

definition productivity_value :: "nat \<Rightarrow> nat \<Rightarrow> nat \<Rightarrow> nat \<Rightarrow> rat" where
  "productivity_value tasks prs blockerCount standups =
     (let taskScore = js_mul (js_div (of_nat tasks) (of_nat standups)) 2;
          prScore = js_mul (js_div (of_nat prs) (of_nat standups)) (3 / 2);
          blockerPenalty = js_mul (js_div (of_nat blockerCount) (of_nat standups)) 2
      in js_sub (js_add taskScore prScore) blockerPenalty)"

definition calculateProductivityScore :: "nat \<Rightarrow> nat \<Rightarrow> nat \<Rightarrow> nat \<Rightarrow> string" where
  "calculateProductivityScore tasks prs blockerCount standups =
     (if standups = 0 then ''No data''
      else let score = productivity_value tasks prs blockerCount standups
           in if score > 6 then ''High'' else if score > 3 then ''Medium'' else ''Low'')"

section \<open>Objects used as dictionaries\<close>

text \<open>
  \<open>getTeamMetrics\<close> keeps two dictionaries in object literals \<open>{}\<close>. Such an object is
  modelled by its own properties in the order of their creation. Two rules of the
  language matter:
  \<^item> \<open>Object.keys\<close>, \<open>Object.values\<close> and \<open>Object.entries\<close> list the own properties whose
    name is an array index (the decimal text of an integer from 0 to \<open>2\<^sup>3\<^sup>2 - 2\<close>, without
    leading zeros) first, in ascending numeric order, and the other properties after
    them, in the order of creation;
  \<^item> reading \<open>obj[name]\<close> where \<open>obj\<close> has no own property \<open>name\<close> gives the property of
    \<open>Object.prototype\<close> when \<open>name\<close> is one of \<open>object_prototype_names\<close>, a function (for
    \<open>__proto__\<close>, \<open>Object.prototype\<close> itself), which is truthy.
\<close>

type_synonym 'v js_object = "(string \<times> 'v) list"

definition object_prototype_names :: "string list" where
  "object_prototype_names =
     [''constructor'', ''__defineGetter__'', ''__defineSetter__'', ''hasOwnProperty'',
      ''__lookupGetter__'', ''__lookupSetter__'', ''isPrototypeOf'', ''propertyIsEnumerable'',
      ''toString'', ''valueOf'', ''__proto__'', ''toLocaleString'']"

definition int_of_digits :: "string \<Rightarrow> int" where
  "int_of_digits s = foldl (\<lambda>n c. 10 * n + (of_char c - 48)) 0 s"

definition is_array_index :: "string \<Rightarrow> bool" where
  "is_array_index s =
     (s \<noteq> [] \<and> list_all is_digit s \<and> (s = ''0'' \<or> hd s \<noteq> CHR ''0'')
      \<and> int_of_digits s \<le> 4294967294)"

definition js_entries :: "'v js_object \<Rightarrow> (string \<times> 'v) list" where
  "js_entries obj =
     sort_key (\<lambda>kv. int_of_digits (fst kv)) (filter (\<lambda>kv. is_array_index (fst kv)) obj)
     @ filter (\<lambda>kv. \<not> is_array_index (fst kv)) obj"

section \<open>Team metrics (storageService.js, getTeamMetrics)\<close>

text \<open>
  A value of the blocker-frequency table is a count, or, for the key \<open>constructor\<close>, a
  text: \<open>blockerFrequency['constructor']\<close> first reads the function \<open>Object\<close>, and
  \<open>Object + 1\<close> is the text of that function followed by \<open>1\<close>. As a number such a text is
  \<open>NaN\<close>.
\<close>

datatype count_value = Count nat | NaNText string

record top_blocker =
  tb_blocker :: string
  tb_count :: count_value

record member_stats =
  standupCount :: nat
  totalTasks :: nat
  totalPRs :: nat
  ms_blockers :: "string list"

record metrics =
  totalStandups :: nat
  activeMembers :: nat
  averageTasksPerMember :: rat
  averagePRsPerMember :: rat
  topBlockers :: "top_blocker list"
  memberStats :: "member_stats js_object option"

text \<open>
  What one listed object of the store holds: \<open>Unreadable\<close> when \<open>getObjectFromS3\<close> returns
  \<open>null\<close> or throws, or when \<open>JSON.parse\<close> of the data throws (the object is then skipped);
  otherwise the parsed standups, a single record counting as a list of one.
\<close>

datatype stored_object = Unreadable | Standups "standup list"

record aggregation =
  allStandups :: "standup list"
  memberStats_acc :: "member_stats js_object"
  blockerFrequency :: "count_value js_object"

text \<open>\<open>blockerFrequency[blockerKey] = (blockerFrequency[blockerKey] || 0) + 1\<close>. The keys are
  lower-case, so \<open>constructor\<close> and \<open>__proto__\<close> are the only inherited names they can
  hit; assigning a text to \<open>__proto__\<close> changes nothing.\<close>

definition function_Object_text :: string where
  "function_Object_text = ''function Object() { [native code] }''"

definition count_blocker :: "string \<Rightarrow> count_value js_object \<Rightarrow> count_value js_object" where
  "count_blocker blockerKey freq =
     (case map_of freq blockerKey of
        Some (Count n) \<Rightarrow> AList.update blockerKey (Count (n + 1)) freq
      | Some (NaNText t) \<Rightarrow> AList.update blockerKey (NaNText (t @ ''1'')) freq
      | None \<Rightarrow>
          if blockerKey = ''constructor''
          then AList.update blockerKey (NaNText (function_Object_text @ ''1'')) freq
          else if blockerKey = ''__proto__'' then freq
          else AList.update blockerKey (Count 1) freq)"

text \<open>\<open>startDate && standup.timestamp < startDate\<close>, strings compared lexicographically.\<close>

definition before_start :: "string option \<Rightarrow> standup \<Rightarrow> bool" where
  "before_start startDate standup =
     (case startDate of None \<Rightarrow> False | Some d \<Rightarrow> d \<noteq> [] \<and> timestamp standup < d)"

definition after_end :: "string option \<Rightarrow> standup \<Rightarrow> bool" where
  "after_end endDate standup =
     (case endDate of None \<Rightarrow> False | Some d \<Rightarrow> d \<noteq> [] \<and> d < timestamp standup)"

definition has_blockers :: "standup \<Rightarrow> bool" where
  "has_blockers standup = (blockers standup \<noteq> [] \<and> toLowerCase (blockers standup) \<noteq> ''none'')"

text \<open>\<open>const blockerKey = standup.blockers.toLowerCase().substring(0, 50)\<close>.\<close>

definition blockerKey :: "standup \<Rightarrow> string" where
  "blockerKey standup = substring0 50 (toLowerCase (blockers standup))"

text \<open>
  The counters of one standup added to the statistics object of its member, with its
  blocker text pushed when it has one.
\<close>

definition add_standup :: "standup \<Rightarrow> member_stats \<Rightarrow> member_stats" where
  "add_standup standup stats =
     (let stats1 = stats \<lparr> standupCount := standupCount stats + 1,
                          totalTasks := totalTasks stats + tasks_length standup,
                          totalPRs := totalPRs stats + prs_length standup \<rparr>
      in if has_blockers standup
         then stats1 \<lparr> ms_blockers := ms_blockers stats1 @ [blockers standup] \<rparr>
         else stats1)"

text \<open>
  One turn of the inner loop. The second component tells whether the turn threw: for a
  member whose name is inherited from \<open>Object.prototype\<close>, no own entry is created, the
  counters land on the inherited object, and \<open>stats.blockers.push\<close> raises a \<open>TypeError\<close>
  since \<open>stats.blockers\<close> is \<open>undefined\<close>; the standup is in \<open>allStandups\<close> by then.
\<close>

definition process_standup ::
  "string option \<Rightarrow> string option \<Rightarrow> standup \<Rightarrow> aggregation \<Rightarrow> aggregation \<times> bool" where
  "process_standup startDate endDate standup agg =
     (if before_start startDate standup then (agg, False)
      else if after_end endDate standup then (agg, False)
      else
        let agg1 = agg \<lparr> allStandups := allStandups agg @ [standup] \<rparr>;
            name = teamMemberName standup;
            freq = (if has_blockers standup
                    then count_blocker (blockerKey standup) (blockerFrequency agg1)
                    else blockerFrequency agg1)
        in case map_of (memberStats_acc agg1) name of
             Some stats \<Rightarrow>
               (agg1 \<lparr> memberStats_acc :=
                         AList.update name (add_standup standup stats) (memberStats_acc agg1),
                       blockerFrequency := freq \<rparr>, False)
           | None \<Rightarrow>
               if name \<in> set object_prototype_names then (agg1, has_blockers standup)
               else
                 (agg1 \<lparr> memberStats_acc :=
                           AList.update name
                             (add_standup standup
                                \<lparr>standupCount = 0, totalTasks = 0, totalPRs = 0, ms_blockers = []\<rparr>)
                             (memberStats_acc agg1),
                         blockerFrequency := freq \<rparr>, False))"

text \<open>The standups of one object; a throw leaves the loop, and the \<open>catch\<close> goes on with
  the next object.\<close>

fun process_standups ::
  "string option \<Rightarrow> string option \<Rightarrow> standup list \<Rightarrow> aggregation \<Rightarrow> aggregation" where
  "process_standups startDate endDate [] agg = agg"
| "process_standups startDate endDate (standup # rest) agg =
     (case process_standup startDate endDate standup agg of
        (agg', True) \<Rightarrow> agg'
      | (agg', False) \<Rightarrow> process_standups startDate endDate rest agg')"

fun process_objects ::
  "string option \<Rightarrow> string option \<Rightarrow> stored_object list \<Rightarrow> aggregation \<Rightarrow> aggregation" where
  "process_objects startDate endDate [] agg = agg"
| "process_objects startDate endDate (Unreadable # objects) agg =
     process_objects startDate endDate objects agg"
| "process_objects startDate endDate (Standups standups # objects) agg =
     process_objects startDate endDate objects (process_standups startDate endDate standups agg)"

text \<open>The comparison function \<open>([,a], [,b]) => b - a\<close> on entries of the table.\<close>

definition by_count_desc :: "string \<times> count_value \<Rightarrow> string \<times> count_value \<Rightarrow> int option" where
  "by_count_desc x y =
     (case (snd x, snd y) of
        (Count a, Count b) \<Rightarrow> Some (int b - int a)
      | _ \<Rightarrow> None)"

definition getTeamMetrics :: "string option \<Rightarrow> string option \<Rightarrow> stored_object list \<Rightarrow> metrics" where
  "getTeamMetrics startDate endDate objects =
     (if length objects = 0
      then \<lparr> totalStandups = 0, activeMembers = 0, averageTasksPerMember = 0,
             averagePRsPerMember = 0, topBlockers = [], memberStats = None \<rparr>
      else
        let agg = process_objects startDate endDate objects
                    \<lparr> allStandups = [], memberStats_acc = [], blockerFrequency = [] \<rparr>;
            members = length (js_entries (memberStats_acc agg));
            tasks = sum_list (map (\<lambda>kv. totalTasks (snd kv)) (js_entries (memberStats_acc agg)));
            prs = sum_list (map (\<lambda>kv. totalPRs (snd kv)) (js_entries (memberStats_acc agg)))
        in \<lparr> totalStandups = length (allStandups agg),
             activeMembers = members,
             averageTasksPerMember =
               (if members > 0
                then js_div (Math_round (js_mul (js_div (of_nat tasks) (of_nat members)) 100)) 100
                else 0),
             averagePRsPerMember =
               (if members > 0
                then js_div (Math_round (js_mul (js_div (of_nat prs) (of_nat members)) 100)) 100
                else 0),
             topBlockers =
               map (\<lambda>kv. \<lparr> tb_blocker = fst kv, tb_count = snd kv \<rparr>)
                 (take 5 (js_sort by_count_desc (js_entries (blockerFrequency agg)))),
             memberStats = Some (memberStats_acc agg) \<rparr>)"

section \<open>Team insights and recommendations (dataHandler.js)\<close>

text \<open>An insight is the object \<open>{type, message, priority}\<close>.\<close>

record insight =
  insight_type :: string
  message :: string
  priority :: string

text \<open>\<open>topBlocker.count > 3\<close>; a text that is \<open>NaN\<close> as a number is not greater.\<close>

definition count_exceeds :: "count_value \<Rightarrow> nat \<Rightarrow> bool" where
  "count_exceeds c n = (case c of Count k \<Rightarrow> n < k | NaNText t \<Rightarrow> False)"

definition generateTeamInsights :: "metrics \<Rightarrow> insight list" where
  "generateTeamInsights m =
     (if totalStandups m = 0
      then [\<lparr> insight_type = ''info'', message = ''No standup data available yet'',
              priority = ''low'' \<rparr>]
      else
        (if activeMembers m > 0
         then (let avgStandupsPerMember =
                     js_div (of_nat (totalStandups m)) (of_nat (activeMembers m))
               in if avgStandupsPerMember < 5
                  then [\<lparr> insight_type = ''concern'',
                          message = ''Low standup participation - encourage regular updates'',
                          priority = ''medium'' \<rparr>]
                  else if avgStandupsPerMember > 20
                  then [\<lparr> insight_type = ''positive'',
                          message = ''Excellent standup participation across the team'',
                          priority = ''low'' \<rparr>]
                  else [])
         else [])
        @ (if averageTasksPerMember m > 8
           then [\<lparr> insight_type = ''warning'',
                   message = ''High average task load - consider workload distribution'',
                   priority = ''high'' \<rparr>]
           else [])
        @ (if averagePRsPerMember m > 5
           then [\<lparr> insight_type = ''warning'',
                   message = ''Many open PRs per member - prioritize reviews'',
                   priority = ''medium'' \<rparr>]
           else [])
        @ (case topBlockers m of
             [] \<Rightarrow> []
           | topBlocker # others \<Rightarrow>
               if count_exceeds (tb_count topBlocker) 3
               then [\<lparr> insight_type = ''concern'',
                       message = ''Recurring blocker detected: '' @ [CHR 0x22]
                                 @ tb_blocker topBlocker @ [CHR 0x22] @ '' - needs attention'',
                       priority = ''high'' \<rparr>]
               else []))"

definition generateTeamRecommendations :: "metrics \<Rightarrow> string list" where
  "generateTeamRecommendations m =
     (if totalStandups m = 0 then [''Start conducting regular standup meetings'']
      else
        let recommendations =
              (if activeMembers m < 5
               then [''Encourage more team members to participate in standups''] else [])
              @ (if averageTasksPerMember m > 6
                 then [''Review task distribution and consider load balancing''] else [])
              @ (if averagePRsPerMember m > 3
                 then [''Implement regular PR review sessions''] else [])
              @ (if length (topBlockers m) > 2
                 then [''Schedule blocker resolution sessions'',
                       ''Consider creating a blocker escalation process'']
                 else [])
        in if length recommendations = 0
           then [''Team metrics look healthy - keep up the good work!'']
           else recommendations)"

section \<open>The specification's wording, for comparison\<close>

text \<open>
  The specification's \<open>findRecurringBlockers\<close>: an entry recurs when another entry has
  the same first 20 characters after lower-casing; the three recurring entries with the
  most occurrences are returned, each message cut to 100 characters and followed by an
  ellipsis.
\<close>

definition spec_others :: "string list \<Rightarrow> nat \<Rightarrow> nat" where
  "spec_others texts i =
     length (filter (\<lambda>j. j \<noteq> i \<and> take 20 (texts ! j) = take 20 (texts ! i)) [0..<length texts])"

definition spec_findRecurringBlockers :: "blocker_entry list \<Rightarrow> recurring_blocker list" where
  "spec_findRecurringBlockers entries =
     (let texts = map (\<lambda>b. toLowerCase (blocker b)) entries;
          recurring = map (\<lambda>i. \<lparr> rb_blocker = take 100 (texts ! i) @ ''...'',
                                  occurrences = spec_others texts i + 1 \<rparr>)
                        (filter (\<lambda>i. 1 \<le> spec_others texts i) [0..<length texts])
      in take 3 (rev (sort_key occurrences (rev recurring))))"

text \<open>
  The specification's \<open>productivityScore\<close>, in exact arithmetic:
  \<open>tasks \<times> 2 + prs \<times> 1.5 - (blockerCount / standups) \<times> 10\<close>.
\<close>

definition spec_productivity_value :: "nat \<Rightarrow> nat \<Rightarrow> nat \<Rightarrow> nat \<Rightarrow> rat" where
  "spec_productivity_value tasks prs blockerCount standups =
     of_nat tasks * 2 + of_nat prs * (3 / 2) - (of_nat blockerCount / of_nat standups) * 10"

definition spec_productivityScore :: "nat \<Rightarrow> nat \<Rightarrow> nat \<Rightarrow> nat \<Rightarrow> string" where
  "spec_productivityScore tasks prs blockerCount standups =
     (if standups = 0 then ''No data''
      else let score = spec_productivity_value tasks prs blockerCount standups
           in if score > 6 then ''High'' else if score > 3 then ''Medium'' else ''Low'')"

text \<open>
  The specification's direction policy on the exact averages of the two groups of
  three counts.
\<close>

definition exact_average :: "nat list \<Rightarrow> rat" where
  "exact_average counts = of_nat (sum_list counts) / of_nat (length counts)"

definition spec_direction :: "rat \<Rightarrow> rat \<Rightarrow> string" where
  "spec_direction recentAvg earlierAvg =
     (if recentAvg > (6 / 5) * earlierAvg then ''increasing''
      else if recentAvg < (4 / 5) * earlierAvg then ''decreasing''
      else ''stable'')"

text \<open>A question as the specification wants it: a string that is not empty.\<close>

definition nonempty_string :: "json \<Rightarrow> bool" where
  "nonempty_string v = (case v of JString s \<Rightarrow> s \<noteq> [] | _ \<Rightarrow> False)"

text \<open>The values of \<open>JSON.parse\<close> at the three texts used in the examples below; any other
  text is taken not to parse.\<close>

definition JSON_parse_examples :: "string \<Rightarrow> json option" where
  "JSON_parse_examples text =
     (if text = [CHR ''['', CHR 0x22, CHR 0x22, CHR '']''] then Some (JArray [JString []])
      else if text = ''[42]'' then Some (JArray [JNumber 42])
      else if text = ''[]'' then Some (JArray [])
      else None)"

text \<open>
  The number of other entries whose text includes the first 20 characters of entry \<open>i\<close>,
  stated without the loop.
\<close>

definition others_including :: "string list \<Rightarrow> nat \<Rightarrow> nat" where
  "others_including texts i =
     length (filter (\<lambda>j. j \<noteq> i \<and> sublist (take 20 (texts ! i)) (texts ! j)) [0..<length texts])"

text \<open>Five blockers of one member, oldest first.\<close>

definition example_blockers :: "blocker_entry list" where
  "example_blockers =
     [\<lparr>date = ''2024-03-04'', blocker = ''VPN''\<rparr>,
      \<lparr>date = ''2024-03-05'', blocker = ''DB locked''\<rparr>,
      \<lparr>date = ''2024-03-06'', blocker = ''db locked''\<rparr>,
      \<lparr>date = ''2024-03-07'', blocker = ''DB locked again''\<rparr>,
      \<lparr>date = ''2024-03-08'', blocker = ''No VPN access''\<rparr>]"

text \<open>
  A stand-in for the engine's date parsing on the examples: the digits of a timestamp
  read as one number, which orders timestamps of one ISO-8601 format as their dates do.
  Only the sign of a difference of two date values reaches \<open>sort\<close>.
\<close>

definition example_Date_value :: "string \<Rightarrow> int option" where
  "example_Date_value t =
     (if filter is_digit t = [] then None else Some (int_of_digits (filter is_digit t)))"

text \<open>A standup of one member with \<open>n\<close> linked tasks, no pull requests and no blocker.\<close>

definition update_with_tasks :: "string \<Rightarrow> nat \<Rightarrow> standup" where
  "update_with_tasks t n =
     \<lparr> teamMemberName = ''alice'', timestamp = t, blockers = ''None'',
       jiraTasks = Some (replicate n ''TASK''), bitbucketPRs = Some [] \<rparr>"

text \<open>Three updates, and six whose task counts are 2, 2, 1 and then 2, 1, 1.\<close>

definition three_updates :: "standup list" where
  "three_updates =
     [update_with_tasks ''2024-03-04'' 1, update_with_tasks ''2024-03-05'' 4,
      update_with_tasks ''2024-03-06'' 9]"

definition boundary_updates :: "standup list" where
  "boundary_updates =
     [update_with_tasks ''2024-03-04'' 2, update_with_tasks ''2024-03-05'' 2,
      update_with_tasks ''2024-03-06'' 1, update_with_tasks ''2024-03-07'' 2,
      update_with_tasks ''2024-03-08'' 1, update_with_tasks ''2024-03-11'' 1]"

text \<open>The metrics of an empty store, as the early return of \<open>getTeamMetrics\<close> builds them.\<close>

definition empty_metrics :: metrics where
  "empty_metrics =
     \<lparr> totalStandups = 0, activeMembers = 0, averageTasksPerMember = 0,
       averagePRsPerMember = 0, topBlockers = [], memberStats = None \<rparr>"

text \<open>A submission with no blocker, and one with a blocker.\<close>

definition calm_submission :: standup where
  "calm_submission =
     \<lparr> teamMemberName = ''alice'', timestamp = ''2024-03-04T09:00:00.000Z'', blockers = ''None'',
       jiraTasks = None, bitbucketPRs = None \<rparr>"

text \<open>
  The records are sorted oldest to newest: every timestamp is a valid date, and no record
  is dated before an earlier one of the list.
\<close>

definition oldest_first :: "(string \<Rightarrow> int option) \<Rightarrow> standup list \<Rightarrow> bool" where
  "oldest_first Date_value updates =
     sorted_wrt (\<lambda>a b. case by_timestamp Date_value a b of Some d \<Rightarrow> d \<le> 0 | None \<Rightarrow> False)
       updates"

text \<open>Five updates whose task counts are 1, 1, 1, 5, 5.\<close>

definition five_updates :: "standup list" where
  "five_updates =
     [update_with_tasks ''2024-03-04'' 1, update_with_tasks ''2024-03-05'' 1,
      update_with_tasks ''2024-03-06'' 1, update_with_tasks ''2024-03-07'' 5,
      update_with_tasks ''2024-03-08'' 5]"

section \<open>The record set behind the team metrics\<close>

text \<open>
  The standups of the store in the order the loops visit them, those inside the date
  range, and the blocker keys of those that report a blocker.
\<close>

definition standups_of :: "stored_object \<Rightarrow> standup list" where
  "standups_of obj = (case obj of Unreadable \<Rightarrow> [] | Standups standups \<Rightarrow> standups)"

definition records_in_range ::
  "string option \<Rightarrow> string option \<Rightarrow> stored_object list \<Rightarrow> standup list" where
  "records_in_range startDate endDate objects =
     filter (\<lambda>s. \<not> before_start startDate s \<and> \<not> after_end endDate s)
       (concat (map standups_of objects))"

definition blocker_keys ::
  "string option \<Rightarrow> string option \<Rightarrow> stored_object list \<Rightarrow> string list" where
  "blocker_keys startDate endDate objects =
     map blockerKey (filter has_blockers (records_in_range startDate endDate objects))"




text \<open>The sum of \<open>standupCount\<close> over the members of \<open>memberStats\<close>.\<close>

definition sum_standupCount :: "metrics \<Rightarrow> nat" where
  "sum_standupCount m =
     (case memberStats m of
        None \<Rightarrow> 0
      | Some stats \<Rightarrow> sum_list (map (\<lambda>kv. standupCount (snd kv)) stats))"

text \<open>A standup of \<open>name\<close> that reports the blocker text \<open>b\<close>.\<close>

definition standup_of :: "string \<Rightarrow> string \<Rightarrow> standup" where
  "standup_of name b =
     \<lparr> teamMemberName = name, timestamp = ''2024-03-04T09:00:00.000Z'', blockers = b,
       jiraTasks = Some [''TASK-1''], bitbucketPRs = Some [] \<rparr>"

text \<open>A store whose one record is of a member named \<open>constructor\<close>, with no blocker.\<close>

definition constructor_store :: "stored_object list" where
  "constructor_store = [Standups [standup_of ''constructor'' ''None'']]"



text \<open>The submitted \<open>blockers\<close> is a string, or a value that is falsy.\<close>

definition text_or_falsy :: "json \<Rightarrow> bool" where
  "text_or_falsy v = (case v of JString s \<Rightarrow> True | _ \<Rightarrow> \<not> truthy v)"

text \<open>What the fallback path gives: the fallback questions as values, or the error.\<close>

definition fallback_outcome ::
  "submission \<Rightarrow> jira_task list \<Rightarrow> pull_request list \<Rightarrow> js_error + json list" where
  "fallback_outcome standupData tasks prs =
     map_sum id (map JString) (generateFallbackQuestions_any standupData tasks prs)"

text \<open>A submission that reports no blocker, and one whose \<open>blockers\<close> is the number 5.\<close>

definition calm_standupData :: submission where
  "calm_standupData = \<lparr> submitted_blockers = JString ''None'' \<rparr>"

definition numeric_standupData :: submission where
  "numeric_standupData = \<lparr> submitted_blockers = JNumber 5 \<rparr>"

text \<open>
  Every timestamp is a valid date, the number that stands for the date of a record, and
  the direction the code derives from the recent and the earlier average of a metric.
\<close>

definition valid_dates :: "(string \<Rightarrow> int option) \<Rightarrow> standup list \<Rightarrow> bool" where
  "valid_dates Date_value updates = list_all (\<lambda>u. Date_value (timestamp u) \<noteq> None) updates"

definition date_of :: "(string \<Rightarrow> int option) \<Rightarrow> standup \<Rightarrow> int" where
  "date_of Date_value u = (case Date_value (timestamp u) of Some d \<Rightarrow> d | None \<Rightarrow> 0)"

definition direction_of :: "rat \<Rightarrow> rat \<Rightarrow> string" where
  "direction_of recentAvg earlierAvg =
     (if recentAvg > js_mul earlierAvg lit_1_2 then ''increasing''
      else if recentAvg < js_mul earlierAvg lit_0_8 then ''decreasing''
      else ''stable'')"

section \<open>Recurring blockers: what the code computes\<close>

lemma js_includes_sublist: "js_includes s t \<longleftrightarrow> sublist t s"
  by (induction s) (auto simp: sublist_Cons_right)

lemma enumerate_as_map: "enumerate 0 xs = map (\<lambda>j. (j, xs ! j)) [0..<length xs]"
  by (rule nth_equalityI) (simp_all add: nth_enumerate_eq)

lemma length_filter_enumerate:
  "length (filter P (enumerate 0 xs)) = length (filter (\<lambda>j. P (j, xs ! j)) [0..<length xs])"
  by (simp add: enumerate_as_map filter_map comp_def)

lemma concat_map_if_singleton:
  "concat (map (\<lambda>i. if P i then [f i] else []) xs) = map f (filter P xs)"
  by (induction xs) simp_all

lemma length_similarBlockers:
  "length (similarBlockers texts i) = others_including texts i"
  unfolding similarBlockers_def others_including_def substring0_def
  by (simp add: length_filter_enumerate js_includes_sublist)

text \<open>
  C5, as the code has it. Every text is lower-cased; entry \<open>i\<close> recurs when at least one
  other entry's text contains the first 20 characters of entry \<open>i\<close> anywhere (not only at
  its start); the result is the first three recurring entries in the order of the input
  (not ranked by occurrences), each with its text cut to 100 characters, nothing
  appended, and with \<open>occurrences\<close> one more than the number of those other entries.
\<close>

theorem findRecurringBlockers_amended:
  "findRecurringBlockers entries =
     take 3
       (map (\<lambda>i. \<lparr> rb_blocker = take 100 (map (\<lambda>b. toLowerCase (blocker b)) entries ! i),
                     occurrences =
                       others_including (map (\<lambda>b. toLowerCase (blocker b)) entries) i + 1 \<rparr>)
          (filter (\<lambda>i. 1 \<le> others_including (map (\<lambda>b. toLowerCase (blocker b)) entries) i)
             [0..<length entries]))"
  unfolding findRecurringBlockers_def Let_def length_similarBlockers substring0_def
  by (simp add: concat_map_if_singleton Suc_le_eq)

theorem findRecurringBlockers_amended_witness:
  "findRecurringBlockers example_blockers =
     take 3
       (map (\<lambda>i. \<lparr> rb_blocker =
                       take 100 (map (\<lambda>b. toLowerCase (blocker b)) example_blockers ! i),
                     occurrences =
                       others_including (map (\<lambda>b. toLowerCase (blocker b)) example_blockers) i
                       + 1 \<rparr>)
          (filter
             (\<lambda>i. 1 \<le> others_including (map (\<lambda>b. toLowerCase (blocker b)) example_blockers) i)
             [0..<length example_blockers]))"
  using findRecurringBlockers_amended [of example_blockers] by simp

text \<open>
  C5 as the specification words it fails on \<open>example_blockers\<close>. The code reports \<open>vpn\<close>,
  which only occurs inside another text; it lists \<open>vpn\<close> (2 occurrences) before
  \<open>db locked\<close> (3 occurrences); and it appends no ellipsis.
\<close>

theorem findRecurringBlockers_counterexample:
  "findRecurringBlockers example_blockers =
     [\<lparr>rb_blocker = ''vpn'', occurrences = 2\<rparr>,
      \<lparr>rb_blocker = ''db locked'', occurrences = 3\<rparr>,
      \<lparr>rb_blocker = ''db locked'', occurrences = 3\<rparr>]
   \<and> spec_findRecurringBlockers example_blockers =
     [\<lparr>rb_blocker = ''db locked...'', occurrences = 2\<rparr>,
      \<lparr>rb_blocker = ''db locked...'', occurrences = 2\<rparr>]"
  by code_simp

text \<open>
  Lower-casing folds the accented capitals too: two texts that differ only in the case of
  their letters, among them the code units U+00C9 and U+00E9, are one text after
  lower-casing, so each of the two entries recurs.
\<close>

lemma findRecurringBlockers_accented:
  "findRecurringBlockers
     [\<lparr>date = ''d1'', blocker = [CHR 0xC9, CHR ''C'', CHR ''O'', CHR ''L'', CHR ''E'', CHR '' '',
                                  CHR ''f'', CHR ''e'', CHR ''r'', CHR ''m'', CHR 0xE9, CHR ''e'']\<rparr>,
      \<lparr>date = ''d2'', blocker = [CHR 0xE9, CHR ''c'', CHR ''o'', CHR ''l'', CHR ''e'', CHR '' '',
                                  CHR ''F'', CHR ''E'', CHR ''R'', CHR ''M'', CHR 0xC9, CHR ''E'']\<rparr>]
   = [\<lparr>rb_blocker = [CHR 0xE9, CHR ''c'', CHR ''o'', CHR ''l'', CHR ''e'', CHR '' '',
                      CHR ''f'', CHR ''e'', CHR ''r'', CHR ''m'', CHR 0xE9, CHR ''e''], occurrences = 2\<rparr>,
      \<lparr>rb_blocker = [CHR 0xE9, CHR ''c'', CHR ''o'', CHR ''l'', CHR ''e'', CHR '' '',
                      CHR ''f'', CHR ''e'', CHR ''r'', CHR ''m'', CHR 0xE9, CHR ''e''], occurrences = 2\<rparr>]"
  by code_simp

section \<open>Productivity score\<close>

text \<open>
  C6, as the code has it. With no standups the result is \<open>No data\<close>. Otherwise the score
  is \<open>(tasks / standups) \<times> 2 + (prs / standups) \<times> 1.5 - (blockerCount / standups) \<times> 2\<close>,
  every operation in double arithmetic: tasks and pull requests are divided by the
  number of standups too, and the blocker rate is weighted by 2, not by 10. The score is
  \<open>High\<close> above 6, \<open>Medium\<close> above 3 and \<open>Low\<close> otherwise.
\<close>

theorem calculateProductivityScore_amended:
  "(calculateProductivityScore tasks prs blockerCount standups = ''No data'' \<longleftrightarrow> standups = 0)
   \<and> (calculateProductivityScore tasks prs blockerCount standups = ''High'' \<longleftrightarrow>
        standups \<noteq> 0 \<and> 6 < productivity_value tasks prs blockerCount standups)
   \<and> (calculateProductivityScore tasks prs blockerCount standups = ''Medium'' \<longleftrightarrow>
        standups \<noteq> 0 \<and> 3 < productivity_value tasks prs blockerCount standups
          \<and> productivity_value tasks prs blockerCount standups \<le> 6)
   \<and> (calculateProductivityScore tasks prs blockerCount standups = ''Low'' \<longleftrightarrow>
        standups \<noteq> 0 \<and> productivity_value tasks prs blockerCount standups \<le> 3)
   \<and> productivity_value tasks prs blockerCount standups =
        js_sub (js_add (js_mul (js_div (of_nat tasks) (of_nat standups)) 2)
                       (js_mul (js_div (of_nat prs) (of_nat standups)) (3 / 2)))
               (js_mul (js_div (of_nat blockerCount) (of_nat standups)) 2)"
  by (auto simp: calculateProductivityScore_def productivity_value_def Let_def)

theorem calculateProductivityScore_amended_witness:
  "calculateProductivityScore 9 2 1 3 = ''High''
   \<and> (3::nat) \<noteq> 0 \<and> 6 < productivity_value 9 2 1 3"
proof -
  have "6 < productivity_value 9 2 1 3" by code_simp
  with calculateProductivityScore_amended [of 9 2 1 3] show ?thesis by simp
qed

text \<open>
  C6 as the specification words it fails for 4 tasks in 2 standups, nothing else: the
  code's score is \<open>(4 / 2) \<times> 2 = 4\<close>, so \<open>Medium\<close>; the specification's is \<open>4 \<times> 2 = 8\<close>, so
  \<open>High\<close>.
\<close>

theorem calculateProductivityScore_counterexample:
  "calculateProductivityScore 4 0 0 2 = ''Medium'' \<and> spec_productivityScore 4 0 0 2 = ''High''"
  by code_simp

section \<open>Team insights and recommendations\<close>

lemma generateTeamRecommendations_nonempty: "generateTeamRecommendations m \<noteq> []"
  by (simp add: generateTeamRecommendations_def Let_def)

text \<open>
  C8. Both functions are total on every metrics object: the only indexed read,
  \<open>metrics.topBlockers[0]\<close>, happens under the guard that the list is not empty, and the
  division under the guard that \<open>activeMembers\<close> is positive. With no standups the
  insights are exactly the informational "no data" insight, and the recommendations
  exactly the generic one; and the recommendations are never empty.
\<close>

theorem insights_total_and_explained:
  "generateTeamRecommendations m \<noteq> []
   \<and> (totalStandups m = 0 \<longrightarrow>
        generateTeamInsights m =
          [\<lparr> insight_type = ''info'', message = ''No standup data available yet'',
             priority = ''low'' \<rparr>]
        \<and> generateTeamRecommendations m = [''Start conducting regular standup meetings''])"
  using generateTeamRecommendations_nonempty [of m]
  by (simp add: generateTeamInsights_def generateTeamRecommendations_def)

theorem insights_total_and_explained_witness:
  "totalStandups empty_metrics = 0
   \<and> generateTeamInsights empty_metrics =
        [\<lparr> insight_type = ''info'', message = ''No standup data available yet'',
           priority = ''low'' \<rparr>]
   \<and> generateTeamRecommendations empty_metrics = [''Start conducting regular standup meetings'']"
  using insights_total_and_explained [of empty_metrics] by (simp add: empty_metrics_def)

section \<open>Follow-up questions\<close>

lemma fallback_length:
  "1 \<le> length (generateFallbackQuestions sd tasks prs)
   \<and> length (generateFallbackQuestions sd tasks prs) \<le> 4"
  by (simp add: generateFallbackQuestions_def Let_def)

lemma fallback_nonempty_strings: "q \<in> set (generateFallbackQuestions sd tasks prs) \<Longrightarrow> q \<noteq> []"
  by (auto simp: generateFallbackQuestions_def Let_def split: if_splits)

lemma extracted_longer_than_5: "q \<in> set (extractQuestionsFromText text) \<Longrightarrow> 5 < length q"
  by (auto simp: extractQuestionsFromText_def Let_def split: if_splits)

lemma fallback_as_json:
  "list_all nonempty_string (map JString (generateFallbackQuestions sd tasks prs))"
  by (auto simp: list_all_iff nonempty_string_def dest: fallback_nonempty_strings)

lemma take_5_fallback:
  "take 5 (map JString (generateFallbackQuestions sd tasks prs))
   = map JString (generateFallbackQuestions sd tasks prs)"
  using fallback_length [of sd tasks prs] by simp

lemma scanned_as_json:
  "list_all nonempty_string (map JString (extractQuestionsFromText text))"
  by (auto simp: list_all_iff nonempty_string_def dest: extracted_longer_than_5)

lemma list_all_take: "list_all P xs \<Longrightarrow> list_all P (take n xs)"
  by (auto simp: list_all_iff dest: in_set_takeD)

text \<open>
  What \<open>generateFollowUpQuestions\<close> returns, by cases on the adapter's reply: the
  fallback questions, unless the reply's text parses or scans to an array that is not
  empty, whose first five elements are then returned as they are.
\<close>

lemma generateFollowUpQuestions_cases:
  "generateFollowUpQuestions JSON_parse reply sd tasks prs =
     (case reply of
        ContentText content \<Rightarrow>
          (case parsed_or_scanned JSON_parse content of
             JArray questions \<Rightarrow>
               if questions = [] then map JString (generateFallbackQuestions sd tasks prs)
               else take 5 questions
           | _ \<Rightarrow> map JString (generateFallbackQuestions sd tasks prs))
      | _ \<Rightarrow> map JString (generateFallbackQuestions sd tasks prs))"
  by (simp add: generateFollowUpQuestions_def Let_def take_5_fallback
      split: bedrock_reply.split json.split)

text \<open>
  C9, as the code has it. The list obtained from parsing or line scanning is discarded
  for the fallback questions when it is not an array or is an empty array. An array that
  is not empty is kept, cut to five elements, whatever its elements are: they are not
  checked to be strings.
\<close>

theorem response_validation_amended:
  "((\<forall>questions. parsed_or_scanned JSON_parse content = JArray questions \<longrightarrow> questions = []) \<longrightarrow>
      generateFollowUpQuestions JSON_parse (ContentText content) sd tasks prs
      = map JString (generateFallbackQuestions sd tasks prs))
   \<and> (\<forall>questions. parsed_or_scanned JSON_parse content = JArray questions \<and> questions \<noteq> [] \<longrightarrow>
      generateFollowUpQuestions JSON_parse (ContentText content) sd tasks prs = take 5 questions)"
  by (auto simp: generateFollowUpQuestions_cases split: json.split)

theorem response_validation_amended_witness:
  "parsed_or_scanned JSON_parse_examples ''[]'' = JArray []
   \<and> generateFollowUpQuestions JSON_parse_examples (ContentText ''[]'') calm_submission [] []
       = map JString (generateFallbackQuestions calm_submission [] [])"
proof -
  have "parsed_or_scanned JSON_parse_examples ''[]'' = JArray []"
    by (simp add: parsed_or_scanned_def JSON_parse_examples_def)
  with response_validation_amended [of JSON_parse_examples "''[]''" calm_submission "[]" "[]"]
  show ?thesis by simp
qed

text \<open>
  C9 as the specification words it fails when the adapter answers with the text \<open>[42]\<close>:
  the parsed list is an array of one number, not of strings, and it is returned, not
  replaced by the fallback questions.
\<close>

theorem response_validation_counterexample:
  "parsed_or_scanned JSON_parse_examples ''[42]'' = JArray [JNumber 42]
   \<and> \<not> list_all nonempty_string [JNumber 42]
   \<and> generateFollowUpQuestions JSON_parse_examples (ContentText ''[42]'') calm_submission [] []
       = [JNumber 42]
   \<and> generateFollowUpQuestions JSON_parse_examples (ContentText ''[42]'') calm_submission [] []
       \<noteq> map JString (generateFallbackQuestions calm_submission [] [])"
  by (simp add: generateFollowUpQuestions_cases parsed_or_scanned_def JSON_parse_examples_def
      nonempty_string_def generateFallbackQuestions_def Let_def calm_submission_def)

section \<open>Follow-up questions for any submitted value\<close>

lemma fallback_any_returned:
  assumes "generateFallbackQuestions_any sd tasks prs = Inr fb"
  shows "1 \<le> length fb \<and> length fb \<le> 4 \<and> list_all (\<lambda>q. q \<noteq> []) fb"
  using assms
  by (auto simp: generateFallbackQuestions_any_def Let_def split: json.splits if_splits)

lemma fallback_any_returns:
  assumes "text_or_falsy (submitted_blockers sd)"
  shows "\<exists>fb. generateFallbackQuestions_any sd tasks prs = Inr fb"
  using assms
  by (cases "submitted_blockers sd")
     (simp_all add: generateFallbackQuestions_any_def text_or_falsy_def Let_def)

text \<open>For a \<open>blockers\<close> that is a string, the two functions are those of the typed model.\<close>

lemma fallback_any_of_string:
  "generateFallbackQuestions_any \<lparr> submitted_blockers = JString (blockers sd) \<rparr> tasks prs
   = Inr (generateFallbackQuestions sd tasks prs)"
  by (simp add: generateFallbackQuestions_any_def generateFallbackQuestions_def Let_def)

lemma fallback_outcome_cases:
  obtains (raised) e where "fallback_outcome sd tasks prs = Inl e"
  | (returned) fb where "fallback_outcome sd tasks prs = Inr (map JString fb)"
      "generateFallbackQuestions_any sd tasks prs = Inr fb"
      "1 \<le> length fb" "length fb \<le> 4" "list_all (\<lambda>q. q \<noteq> []) fb"
proof (cases "generateFallbackQuestions_any sd tasks prs")
  case (Inl e)
  then show ?thesis by (intro raised [of e]) (simp add: fallback_outcome_def)
next
  case (Inr fb)
  with fallback_any_returned [OF Inr] show ?thesis
    by (intro returned [of fb]) (simp_all add: fallback_outcome_def)
qed

lemma caught_fallback:
  "try_catch (Inl e) (fallback_outcome sd tasks prs) = fallback_outcome sd tasks prs"
  "try_catch (fallback_outcome sd tasks prs) (fallback_outcome sd tasks prs)
   = fallback_outcome sd tasks prs"
  "map_sum id (take 5) (fallback_outcome sd tasks prs) = fallback_outcome sd tasks prs"
  by (cases sd tasks prs rule: fallback_outcome_cases; simp add: try_catch_def)+

text \<open>
  What \<open>generateFollowUpQuestions\<close> gives, by cases on the adapter's reply: the outcome of
  the fallback path, unless the reply's text parses or scans to an array that is not
  empty, whose first five elements are then returned as they are.
\<close>

lemma generateFollowUpQuestions_any_cases:
  "generateFollowUpQuestions_any JSON_parse reply sd tasks prs =
     (case reply of
        ContentText content \<Rightarrow>
          (case parsed_or_scanned JSON_parse content of
             JArray questions \<Rightarrow>
               if questions = [] then fallback_outcome sd tasks prs else Inr (take 5 questions)
           | _ \<Rightarrow> fallback_outcome sd tasks prs)
      | _ \<Rightarrow> fallback_outcome sd tasks prs)"
  unfolding generateFollowUpQuestions_any_def Let_def fallback_outcome_def [symmetric]
  by (simp add: caught_fallback split: bedrock_reply.split json.split)
     (simp add: try_catch_def)

lemma generateFollowUpQuestions_any_of_string:
  "generateFollowUpQuestions_any JSON_parse reply \<lparr> submitted_blockers = JString (blockers sd) \<rparr>
     tasks prs
   = Inr (generateFollowUpQuestions JSON_parse reply sd tasks prs)"
  by (simp add: generateFollowUpQuestions_any_cases generateFollowUpQuestions_cases
      fallback_outcome_def fallback_any_of_string split: bedrock_reply.split json.split)

text \<open>
  C1, as the code has it. For every task and pull-request list, every \<open>JSON.parse\<close> and
  every behaviour of the adapter: when the adapter throws, or its response cannot be
  read, or the list parsed or scanned from its text is not an array or is empty, the
  result is the outcome of the fallback generator; when that list is an array that is not
  empty, the result is its first five elements as they are. For every submission whose
  \<open>blockers\<close> is a string or falsy, the fallback generator returns 1 to 4 strings that are
  not empty, so \<open>generateFollowUpQuestions\<close> raises nothing and returns 1 to 5 entries,
  which are strings that are not empty unless the adapter's text parses as a JSON array
  that is not empty.
\<close>

theorem generateFollowUpQuestions_amended:
  "((\<forall>content. reply \<noteq> ContentText content) \<longrightarrow>
      generateFollowUpQuestions_any JSON_parse reply sd tasks prs = fallback_outcome sd tasks prs)
   \<and> (\<forall>content questions.
        reply = ContentText content \<and> parsed_or_scanned JSON_parse content = JArray questions
          \<and> questions \<noteq> [] \<longrightarrow>
        generateFollowUpQuestions_any JSON_parse reply sd tasks prs = Inr (take 5 questions))
   \<and> (\<forall>content.
        reply = ContentText content
          \<and> (\<forall>questions. parsed_or_scanned JSON_parse content = JArray questions \<longrightarrow> questions = []) \<longrightarrow>
        generateFollowUpQuestions_any JSON_parse reply sd tasks prs = fallback_outcome sd tasks prs)
   \<and> (text_or_falsy (submitted_blockers sd) \<longrightarrow>
        (\<exists>fb. fallback_outcome sd tasks prs = Inr (map JString fb)
            \<and> 1 \<le> length fb \<and> length fb \<le> 4 \<and> list_all (\<lambda>q. q \<noteq> []) fb)
        \<and> (\<exists>qs. generateFollowUpQuestions_any JSON_parse reply sd tasks prs = Inr qs
            \<and> 1 \<le> length qs \<and> length qs \<le> 5
            \<and> ((\<forall>content questions.
                   reply = ContentText content \<and> JSON_parse content = Some (JArray questions) \<longrightarrow>
                   questions = []) \<longrightarrow>
                 list_all nonempty_string qs)))"
proof (intro conjI allI impI)
  let ?r = "generateFollowUpQuestions_any JSON_parse reply sd tasks prs"
  let ?fo = "fallback_outcome sd tasks prs"
  show "?r = ?fo" if "\<forall>content. reply \<noteq> ContentText content"
    using that by (cases reply) (simp_all add: generateFollowUpQuestions_any_cases)
  show "?r = Inr (take 5 questions)"
    if "reply = ContentText content \<and> parsed_or_scanned JSON_parse content = JArray questions
        \<and> questions \<noteq> []" for content questions
    using that by (simp add: generateFollowUpQuestions_any_cases)
  show "?r = ?fo"
    if "reply = ContentText content
        \<and> (\<forall>questions. parsed_or_scanned JSON_parse content = JArray questions \<longrightarrow> questions = [])"
    for content
    using that by (auto simp: generateFollowUpQuestions_any_cases split: json.split)
  assume typed: "text_or_falsy (submitted_blockers sd)"
  from fallback_any_returns [OF typed] obtain fb
    where fb: "generateFallbackQuestions_any sd tasks prs = Inr fb" by blast
  have fo: "?fo = Inr (map JString fb)" by (simp add: fallback_outcome_def fb)
  from fallback_any_returned [OF fb]
  have len: "1 \<le> length fb" "length fb \<le> 4" and ne: "list_all (\<lambda>q. q \<noteq> []) fb" by simp_all
  show "\<exists>fb. ?fo = Inr (map JString fb) \<and> 1 \<le> length fb \<and> length fb \<le> 4
          \<and> list_all (\<lambda>q. q \<noteq> []) fb"
    using fo len ne by blast
  have fbj: "list_all nonempty_string (map JString fb)"
    using ne by (simp add: list_all_iff nonempty_string_def)
  show "\<exists>qs. ?r = Inr qs \<and> 1 \<le> length qs \<and> length qs \<le> 5
          \<and> ((\<forall>content questions.
                 reply = ContentText content \<and> JSON_parse content = Some (JArray questions) \<longrightarrow>
                 questions = []) \<longrightarrow>
               list_all nonempty_string qs)"
  proof (cases "\<exists>content questions. reply = ContentText content
                  \<and> parsed_or_scanned JSON_parse content = JArray questions \<and> questions \<noteq> []")
    case True
    then obtain content questions where c: "reply = ContentText content"
      "parsed_or_scanned JSON_parse content = JArray questions" "questions \<noteq> []"
      by blast
    then have r: "?r = Inr (take 5 questions)"
      by (simp add: generateFollowUpQuestions_any_cases)
    have l: "1 \<le> length (take 5 questions)" "length (take 5 questions) \<le> 5"
      using c(3) by (cases questions; simp)+
    have "list_all nonempty_string (take 5 questions)"
      if none: "\<forall>content questions.
                  reply = ContentText content \<and> JSON_parse content = Some (JArray questions) \<longrightarrow>
                  questions = []"
    proof (cases "JSON_parse content")
      case None
      then have "questions = map JString (extractQuestionsFromText content)"
        using c(2) by (simp add: parsed_or_scanned_def)
      then show ?thesis
        using scanned_as_json [of content] by (simp add: list_all_take)
    next
      case (Some parsed)
      then have "JSON_parse content = Some (JArray questions)"
        using c(2) by (simp add: parsed_or_scanned_def)
      with none c(1,3) show ?thesis by blast
    qed
    with r l show ?thesis by blast
  next
    case False
    then have "?r = ?fo"
      by (auto simp: generateFollowUpQuestions_any_cases split: bedrock_reply.split json.split)
    with fo len fbj show ?thesis by auto
  qed
qed

theorem generateFollowUpQuestions_amended_witness:
  "(\<forall>content. SendRejects \<noteq> ContentText content)
   \<and> text_or_falsy (submitted_blockers calm_standupData)
   \<and> generateFollowUpQuestions_any JSON_parse_examples SendRejects calm_standupData [] []
       = fallback_outcome calm_standupData [] []
   \<and> (\<exists>qs. generateFollowUpQuestions_any JSON_parse_examples SendRejects calm_standupData [] []
              = Inr qs
          \<and> 1 \<le> length qs \<and> length qs \<le> 5 \<and> list_all nonempty_string qs)
   \<and> parsed_or_scanned JSON_parse_examples ''[42]'' = JArray [JNumber 42]
   \<and> [JNumber 42] \<noteq> []
   \<and> generateFollowUpQuestions_any JSON_parse_examples (ContentText ''[42]'') calm_standupData [] []
       = Inr (take 5 [JNumber 42])
   \<and> parsed_or_scanned JSON_parse_examples ''[]'' = JArray []
   \<and> generateFollowUpQuestions_any JSON_parse_examples (ContentText ''[]'') calm_standupData [] []
       = fallback_outcome calm_standupData [] []"
proof -
  have a: "\<forall>content. SendRejects \<noteq> ContentText content" by simp
  have b: "text_or_falsy (submitted_blockers calm_standupData)"
    by (simp add: calm_standupData_def text_or_falsy_def)
  have c: "parsed_or_scanned JSON_parse_examples ''[42]'' = JArray [JNumber 42]"
    by (simp add: parsed_or_scanned_def JSON_parse_examples_def)
  have d: "[JNumber 42] \<noteq> []" by simp
  have e: "parsed_or_scanned JSON_parse_examples ''[]'' = JArray []"
    by (simp add: parsed_or_scanned_def JSON_parse_examples_def)
  then have e': "\<forall>questions. parsed_or_scanned JSON_parse_examples ''[]'' = JArray questions
                   \<longrightarrow> questions = []"
    by simp
  from generateFollowUpQuestions_amended
         [of SendRejects JSON_parse_examples calm_standupData "[]" "[]"] a b
  have 1: "generateFollowUpQuestions_any JSON_parse_examples SendRejects calm_standupData [] []
             = fallback_outcome calm_standupData [] []
           \<and> (\<exists>qs. generateFollowUpQuestions_any JSON_parse_examples SendRejects
                       calm_standupData [] [] = Inr qs
                  \<and> 1 \<le> length qs \<and> length qs \<le> 5 \<and> list_all nonempty_string qs)"
    by blast
  from generateFollowUpQuestions_amended
         [of "ContentText ''[42]''" JSON_parse_examples calm_standupData "[]" "[]"] c d
  have 2: "generateFollowUpQuestions_any JSON_parse_examples (ContentText ''[42]'')
             calm_standupData [] [] = Inr (take 5 [JNumber 42])"
    by blast
  from generateFollowUpQuestions_amended
         [of "ContentText ''[]''" JSON_parse_examples calm_standupData "[]" "[]"] e'
  have 3: "generateFollowUpQuestions_any JSON_parse_examples (ContentText ''[]'')
             calm_standupData [] [] = fallback_outcome calm_standupData [] []"
    by blast
  from a b c d e 1 2 3 show ?thesis by blast
qed

text \<open>
  C1 as the specification words it fails when the adapter answers with the text \<open>[""]\<close>:
  it parses as an array that is not empty, so its one element, the empty string, is
  returned.
\<close>

theorem generateFollowUpQuestions_counterexample:
  "generateFollowUpQuestions_any JSON_parse_examples
     (ContentText [CHR ''['', CHR 0x22, CHR 0x22, CHR '']'']) calm_standupData [] []
   = Inr [JString []]
   \<and> \<not> list_all nonempty_string [JString []]"
  by (simp add: generateFollowUpQuestions_any_cases parsed_or_scanned_def JSON_parse_examples_def
      nonempty_string_def)

text \<open>
  A submission whose \<open>blockers\<close> is the number 5 passes the truthiness check of
  \<open>processStandup\<close>. When the adapter throws, the fallback generator raises a \<open>TypeError\<close>
  inside the \<open>catch\<close>, and the error reaches the caller.
\<close>

lemma fallback_raises_for_number:
  "generateFollowUpQuestions_any JSON_parse_examples SendRejects numeric_standupData [] []
   = Inl TypeError"
  by code_simp

section \<open>Rounding to a double\<close>

lemma round_half_even_of_int: "round_half_even (of_int n) = n"
  by (simp add: round_half_even_def)

lemma round_half_even_range:
  "\<lfloor>q\<rfloor> \<le> round_half_even q \<and> round_half_even q \<le> \<lfloor>q\<rfloor> + 1"
  by (simp add: round_half_even_def Let_def)

lemma round_half_even_mono:
  assumes "q \<le> q'"
  shows "round_half_even q \<le> round_half_even q'"
proof (cases "\<lfloor>q\<rfloor> = \<lfloor>q'\<rfloor>")
  case True
  then have "q - of_int \<lfloor>q\<rfloor> \<le> q' - of_int \<lfloor>q'\<rfloor>"
    using assms by simp
  then show ?thesis
    using True by (auto simp: round_half_even_def Let_def)
next
  case False
  then have "\<lfloor>q\<rfloor> + 1 \<le> \<lfloor>q'\<rfloor>"
    using floor_mono [OF assms] by linarith
  then show ?thesis
    using round_half_even_range [of q] round_half_even_range [of q'] by linarith
qed

lemma binade_bounds:
  assumes "0 < x"
  shows "2 powi binade x \<le> x \<and> x < 2 powi (binade x + 1)"
proof -
  obtain p q where pq: "quotient_of x = (p, q)" by (cases "quotient_of x")
  then have q: "0 < q" by (rule quotient_of_denom_pos)
  have x: "x = of_int p / of_int q" using pq by (rule quotient_of_div)
  have p: "0 < p"
    using assms q unfolding x by (simp add: zero_less_divide_iff)
  define bp where "bp = bitlen p"
  define bq where "bq = bitlen q"
  have bp1: "1 \<le> bp" and bq1: "1 \<le> bq"
    using p q by (simp_all add: bp_def bq_def bitlen_alt_def)
  from bitlen_bounds [OF p]
  have "(2::int) ^ nat (bp - 1) \<le> p" "p < 2 ^ nat bp" by (simp_all add: bp_def)
  then have "(of_int ((2::int) ^ nat (bp - 1)) :: rat) \<le> of_int p" "(of_int p :: rat) < of_int (2 ^ nat bp)"
    by (simp_all only: of_int_le_iff of_int_less_iff)
  then have P: "(2::rat) powi (bp - 1) \<le> of_int p" "(of_int p :: rat) < 2 powi bp"
    using bp1 by (simp_all add: power_int_def)
  from bitlen_bounds [OF q]
  have "(2::int) ^ nat (bq - 1) \<le> q" "q < 2 ^ nat bq" by (simp_all add: bq_def)
  then have "(of_int ((2::int) ^ nat (bq - 1)) :: rat) \<le> of_int q" "(of_int q :: rat) < of_int (2 ^ nat bq)"
    by (simp_all only: of_int_le_iff of_int_less_iff)
  then have Q: "(2::rat) powi (bq - 1) \<le> of_int q" "(of_int q :: rat) < 2 powi bq"
    using bq1 by (simp_all add: power_int_def)
  have q': "(0::rat) < of_int q" using q by simp
  have upper: "x < 2 powi (bp - bq + 1)"
  proof -
    have "(2::rat) powi (bp - bq + 1) * of_int q \<ge> 2 powi (bp - bq + 1) * 2 powi (bq - 1)"
      using Q(1) by (intro mult_left_mono) simp_all
    also have "(2::rat) powi (bp - bq + 1) * 2 powi (bq - 1) = 2 powi bp"
      by (simp flip: power_int_add)
    finally have "of_int p < (2::rat) powi (bp - bq + 1) * of_int q"
      using P(2) by linarith
    then show ?thesis
      unfolding x using q' by (simp add: pos_divide_less_eq)
  qed
  have lower: "2 powi (bp - bq - 1) \<le> x"
  proof -
    have "(2::rat) powi (bp - bq - 1) * of_int q \<le> 2 powi (bp - bq - 1) * 2 powi bq"
      using Q(2) by (intro mult_left_mono) simp_all
    also have "(2::rat) powi (bp - bq - 1) * 2 powi bq = 2 powi (bp - 1)"
      by (simp flip: power_int_add)
    finally have "(2::rat) powi (bp - bq - 1) * of_int q \<le> of_int p"
      using P(1) by linarith
    then show ?thesis
      unfolding x using q' by (simp add: pos_le_divide_eq)
  qed
  have b: "binade x = (if 2 powi (bp - bq) \<le> x then bp - bq else bp - bq - 1)"
    by (simp add: binade_def pq bp_def bq_def Let_def)
  show ?thesis
  proof (cases "2 powi (bp - bq) \<le> x")
    case True
    with upper b show ?thesis by simp
  next
    case False
    with lower b show ?thesis by simp
  qed
qed

lemma binade_unique:
  assumes "0 < x" and "2 powi e \<le> x" and "x < 2 powi (e + 1)"
  shows "binade x = e"
proof (rule ccontr)
  assume ne: "binade x \<noteq> e"
  from binade_bounds [OF assms(1)]
  have b: "2 powi binade x \<le> x" "x < 2 powi (binade x + 1)" by simp_all
  show False
  proof (cases "binade x < e")
    case True
    then have "(2::rat) powi (binade x + 1) \<le> 2 powi e"
      by (intro power_int_increasing) simp_all
    with b(2) assms(2) show False by linarith
  next
    case False
    with ne have "e + 1 \<le> binade x" by simp
    then have "(2::rat) powi (e + 1) \<le> 2 powi binade x"
      by (intro power_int_increasing) simp_all
    with b(1) assms(3) show False by linarith
  qed
qed

lemma binade_mono:
  assumes "0 < x" and "x \<le> y"
  shows "binade x \<le> binade y"
proof (rule ccontr)
  assume "\<not> binade x \<le> binade y"
  then have "binade y + 1 \<le> binade x" by simp
  then have "(2::rat) powi (binade y + 1) \<le> 2 powi binade x"
    by (intro power_int_increasing) simp_all
  moreover have "y < 2 powi (binade y + 1)"
    using binade_bounds [of y] assms by simp
  moreover have "2 powi binade x \<le> x"
    using binade_bounds [OF assms(1)] by simp
  ultimately show False using assms(2) by linarith
qed

text \<open>
  A positive \<open>x\<close> is rounded to a multiple \<open>n \<times> 2\<^sup>e\<^sup>-\<^sup>5\<^sup>2\<close> with \<open>2\<^sup>5\<^sup>2 \<le> n \<le> 2\<^sup>5\<^sup>3\<close>, where \<open>e\<close> is the
  binade of \<open>x\<close>; so the rounded value stays between the ends of the binade.
\<close>

lemma round_double_pos:
  assumes "0 < x"
  shows "round_double x = of_int (round_half_even (x / 2 powi (binade x - 52))) * 2 powi (binade x - 52)"
  using assms by (simp add: round_double_def Let_def)

lemma significand_range:
  assumes "0 < x"
  shows "2 ^ 52 \<le> round_half_even (x / 2 powi (binade x - 52))
         \<and> round_half_even (x / 2 powi (binade x - 52)) \<le> 2 ^ 53"
proof -
  let ?u = "(2::rat) powi (binade x - 52)"
  have u: "0 < ?u" by simp
  from binade_bounds [OF assms]
  have b: "2 powi binade x \<le> x" "x < 2 powi (binade x + 1)" by simp_all
  have e1: "(2::rat) powi binade x = 2 ^ 52 * ?u"
    by (simp add: power_int_diff)
  have e2: "(2::rat) powi (binade x + 1) = 2 ^ 53 * ?u"
    by (simp add: power_int_diff power_int_add)
  have "(2::rat) ^ 52 \<le> x / ?u"
    using b(1) u unfolding e1 by (simp add: pos_le_divide_eq)
  then have "round_half_even (of_int (2 ^ 52)) \<le> round_half_even (x / ?u)"
    by (intro round_half_even_mono) simp
  moreover have "x / ?u \<le> (2::rat) ^ 53"
    using b(2) u unfolding e2 by (simp add: pos_divide_le_eq)
  then have "round_half_even (x / ?u) \<le> round_half_even (of_int (2 ^ 53))"
    by (intro round_half_even_mono) simp
  ultimately show ?thesis
    by (simp only: round_half_even_of_int)
qed

lemma round_double_in_binade:
  assumes "0 < x"
  shows "2 powi binade x \<le> round_double x \<and> round_double x \<le> 2 powi (binade x + 1)"
proof -
  let ?u = "(2::rat) powi (binade x - 52)"
  let ?n = "round_half_even (x / ?u)"
  have u: "0 < ?u" by simp
  have e1: "(2::rat) powi binade x = 2 ^ 52 * ?u"
    by (simp add: power_int_diff)
  have e2: "(2::rat) powi (binade x + 1) = 2 ^ 53 * ?u"
    by (simp add: power_int_diff power_int_add)
  from significand_range [OF assms]
  have "(of_int (2 ^ 52) :: rat) \<le> of_int ?n" "(of_int ?n :: rat) \<le> of_int (2 ^ 53)"
    by (simp_all only: of_int_le_iff)
  then have "(2::rat) ^ 52 * ?u \<le> of_int ?n * ?u" "of_int ?n * ?u \<le> (2::rat) ^ 53 * ?u"
    using u by (simp_all add: mult_right_mono)
  then show ?thesis
    unfolding round_double_pos [OF assms] e1 e2 by simp
qed

lemma round_double_pos_pos: "0 < x \<Longrightarrow> 0 < round_double x"
  using round_double_in_binade [of x] zero_less_power_int [of "2::rat" "binade x"]
  by linarith

lemma round_double_nonneg: "0 \<le> x \<Longrightarrow> 0 \<le> round_double x"
  using round_double_pos_pos [of x] by (cases "x = 0") (simp_all add: round_double_def)

lemma round_double_mono_pos:
  assumes "0 < x" and "x \<le> y"
  shows "round_double x \<le> round_double y"
proof (cases "binade x = binade y")
  case True
  let ?u = "(2::rat) powi (binade y - 52)"
  have y: "0 < y" using assms by simp
  have "x / ?u \<le> y / ?u"
    using assms(2) by (simp add: divide_right_mono)
  then have "round_half_even (x / ?u) \<le> round_half_even (y / ?u)"
    by (rule round_half_even_mono)
  then have "(of_int (round_half_even (x / ?u)) :: rat) * ?u \<le> of_int (round_half_even (y / ?u)) * ?u"
    by (intro mult_right_mono) simp_all
  then show ?thesis
    unfolding round_double_pos [OF assms(1)] round_double_pos [OF y] True .
next
  case False
  have y: "0 < y" using assms by simp
  from False binade_mono [OF assms] have "binade x + 1 \<le> binade y" by simp
  then have "(2::rat) powi (binade x + 1) \<le> 2 powi binade y"
    by (intro power_int_increasing) simp_all
  with round_double_in_binade [OF assms(1)] round_double_in_binade [OF y]
  show ?thesis by linarith
qed

lemma round_double_mono:
  assumes "0 \<le> x" and "x \<le> y"
  shows "round_double x \<le> round_double y"
proof (cases "x = 0")
  case True
  then show ?thesis
    using round_double_nonneg [of y] assms by (simp add: round_double_def)
next
  case False
  with assms show ?thesis by (intro round_double_mono_pos) simp_all
qed

lemma round_double_idem:
  assumes "0 \<le> x"
  shows "round_double (round_double x) = round_double x"
proof (cases "x = 0")
  case True
  then show ?thesis by (simp add: round_double_def)
next
  case False
  with assms have x: "0 < x" by simp
  let ?e = "binade x"
  let ?u = "(2::rat) powi (?e - 52)"
  let ?n = "round_half_even (x / ?u)"
  have rx: "round_double x = of_int ?n * ?u" by (rule round_double_pos [OF x])
  have pos: "0 < round_double x" by (rule round_double_pos_pos [OF x])
  from significand_range [OF x] have n: "2 ^ 52 \<le> ?n" "?n \<le> 2 ^ 53" by simp_all
  show ?thesis
  proof (cases "?n = 2 ^ 53")
    case True
    have top: "round_double x = 2 powi (?e + 1)"
      unfolding rx True by (simp add: power_int_diff power_int_add)
    have "binade (round_double x) = ?e + 1"
    proof (rule binade_unique [OF pos])
      show "2 powi (?e + 1) \<le> round_double x" by (simp add: top)
      have "(2::rat) powi (?e + 1) < 2 powi (?e + 1 + 1)"
        by (intro power_int_strict_increasing) simp_all
      then show "round_double x < 2 powi (?e + 1 + 1)" by (simp add: top)
    qed
    then have "round_double (round_double x)
               = of_int (round_half_even (round_double x / 2 powi (?e + 1 - 52))) * 2 powi (?e + 1 - 52)"
      using round_double_pos [OF pos] by simp
    also have "round_double x / 2 powi (?e + 1 - 52) = of_int (2 ^ 52)"
      unfolding top by (simp add: power_int_diff power_int_add)
    also have "of_int (round_half_even (of_int (2 ^ 52))) * 2 powi (?e + 1 - 52) = (2::rat) powi (?e + 1)"
      unfolding round_half_even_of_int by (simp add: power_int_diff power_int_add)
    finally show ?thesis by (simp add: top)
  next
    case False
    with n have lt: "?n < 2 ^ 53" by simp
    have "binade (round_double x) = ?e"
    proof (rule binade_unique [OF pos])
      show "2 powi ?e \<le> round_double x"
        using round_double_in_binade [OF x] by simp
      have "(of_int ?n :: rat) < of_int (2 ^ 53)"
        using lt by (simp only: of_int_less_iff)
      then have "of_int ?n * ?u < 2 ^ 53 * ?u"
        by (simp add: mult_strict_right_mono)
      then show "round_double x < 2 powi (?e + 1)"
        unfolding rx by (simp add: power_int_diff power_int_add)
    qed
    then have "round_double (round_double x)
               = of_int (round_half_even (round_double x / ?u)) * ?u"
      using round_double_pos [OF pos] by simp
    also have "round_double x / ?u = of_int ?n"
      unfolding rx by simp
    finally show ?thesis
      by (simp add: round_half_even_of_int rx)
  qed
qed

text \<open>
  The rounded value is nearest: it is off by at most half a unit in the last place of
  the binade, and by exactly half only when its significand is even.
\<close>

lemma round_half_even_cases:
  obtains (down) "q - of_int \<lfloor>q\<rfloor> < 1 / 2" "round_half_even q = \<lfloor>q\<rfloor>"
  | (up) "1 / 2 < q - of_int \<lfloor>q\<rfloor>" "round_half_even q = \<lfloor>q\<rfloor> + 1"
  | (tie) "q - of_int \<lfloor>q\<rfloor> = 1 / 2" "even (round_half_even q)"
    "round_half_even q = \<lfloor>q\<rfloor> \<or> round_half_even q = \<lfloor>q\<rfloor> + 1"
proof -
  consider "q - of_int \<lfloor>q\<rfloor> < 1 / 2" | "1 / 2 < q - of_int \<lfloor>q\<rfloor>" | "q - of_int \<lfloor>q\<rfloor> = 1 / 2"
    by linarith
  then show ?thesis
  proof cases
    case 1
    then show ?thesis by (intro down) (simp_all add: round_half_even_def Let_def)
  next
    case 2
    then show ?thesis by (intro up) (simp_all add: round_half_even_def Let_def)
  next
    case 3
    then show ?thesis by (intro tie) (simp_all add: round_half_even_def Let_def)
  qed
qed

lemma round_half_even_nearest: "\<bar>of_int (round_half_even q) - q\<bar> \<le> 1 / 2"
proof (cases q rule: round_half_even_cases)
  case down
  have "of_int \<lfloor>q\<rfloor> \<le> q" by linarith
  with down(1) show ?thesis unfolding down(2) by linarith
next
  case up
  have "q < of_int \<lfloor>q\<rfloor> + 1" by linarith
  with up(1) show ?thesis unfolding up(2) of_int_add of_int_1 by linarith
next
  case tie
  from tie(3) show ?thesis
  proof
    assume r: "round_half_even q = \<lfloor>q\<rfloor>"
    from tie(1) show ?thesis unfolding r by linarith
  next
    assume r: "round_half_even q = \<lfloor>q\<rfloor> + 1"
    from tie(1) show ?thesis unfolding r of_int_add of_int_1 by linarith
  qed
qed

lemma round_half_even_tie:
  assumes "\<bar>of_int (round_half_even q) - q\<bar> = 1 / 2"
  shows "even (round_half_even q)"
proof (cases q rule: round_half_even_cases)
  case down
  have "of_int \<lfloor>q\<rfloor> \<le> q" by linarith
  with down(1) assms [unfolded down(2)] have False by linarith
  then show ?thesis ..
next
  case up
  have "q < of_int \<lfloor>q\<rfloor> + 1" by linarith
  with up(1) assms [unfolded up(2) of_int_add of_int_1] have False by linarith
  then show ?thesis ..
next
  case tie
  then show ?thesis by simp
qed

lemma round_double_nearest:
  assumes "0 < x"
  shows "\<bar>round_double x - x\<bar> \<le> 2 powi (binade x - 52) / 2"
proof -
  let ?u = "(2::rat) powi (binade x - 52)"
  let ?n = "round_half_even (x / ?u)"
  have u: "0 < ?u" by simp
  have "of_int ?n * ?u - x = (of_int ?n - x / ?u) * ?u"
    using u by (simp add: left_diff_distrib)
  then have "\<bar>of_int ?n * ?u - x\<bar> = \<bar>of_int ?n - x / ?u\<bar> * \<bar>?u\<bar>"
    by (simp only: abs_mult)
  also have "\<bar>?u\<bar> = ?u" using u by simp
  also have "\<bar>of_int ?n - x / ?u\<bar> * ?u \<le> (1 / 2) * ?u"
    using round_half_even_nearest [of "x / ?u"] u by (intro mult_right_mono) simp_all
  finally show ?thesis
    by (simp add: round_double_pos [OF assms])
qed

section \<open>Member trends\<close>

lemma length_js_insort: "length (js_insort cmp x xs) = Suc (length xs)"
  by (induction xs) (auto split: option.split)

lemma length_js_sort: "length (js_sort cmp xs) = length xs"
  by (induction xs) (simp_all add: js_sort_def length_js_insort)

lemma js_sort_sorted:
  "sorted_wrt (\<lambda>a b. case cmp a b of Some d \<Rightarrow> d \<le> 0 | None \<Rightarrow> False) xs \<Longrightarrow> js_sort cmp xs = xs"
proof (induction xs)
  case Nil
  show ?case by (simp add: js_sort_def)
next
  case (Cons x xs)
  then have tail: "js_sort cmp xs = xs" by simp
  have "js_insort cmp x xs = x # xs"
  proof (cases xs)
    case Nil
    then show ?thesis by simp
  next
    case (Cons y ys)
    with Cons.prems have "case cmp x y of Some d \<Rightarrow> d \<le> 0 | None \<Rightarrow> False" by simp
    then show ?thesis using Cons by (simp split: option.splits)
  qed
  with tail show ?case by (simp add: js_sort_def)
qed

lemma lit_bounds: "0 \<le> lit_0_8" "lit_0_8 \<le> 1" "1 \<le> lit_1_2"
  by code_simp+

lemma average_nonneg: "0 \<le> average counts"
  by (simp add: average_def js_div_def round_double_nonneg)

lemma average_is_double: "round_double (average counts) = average counts"
  by (simp add: average_def js_div_def round_double_idem)

lemma scaled_up: "average counts \<le> js_mul (average counts) lit_1_2"
proof -
  have "average counts * 1 \<le> average counts * lit_1_2"
    using average_nonneg lit_bounds(3) by (intro mult_left_mono)
  then have "round_double (average counts) \<le> round_double (average counts * lit_1_2)"
    using average_nonneg by (intro round_double_mono) simp_all
  then show ?thesis by (simp add: js_mul_def average_is_double)
qed

lemma scaled_down: "js_mul (average counts) lit_0_8 \<le> average counts"
proof -
  have "average counts * lit_0_8 \<le> average counts * 1"
    using average_nonneg lit_bounds(2) by (intro mult_left_mono)
  moreover have "0 \<le> average counts * lit_0_8"
    using average_nonneg lit_bounds(1) by simp
  ultimately have "round_double (average counts * lit_0_8) \<le> round_double (average counts)"
    by (intro round_double_mono) simp_all
  then show ?thesis by (simp add: js_mul_def average_is_double)
qed

lemma thresholds_ordered: "js_mul (average counts) lit_0_8 \<le> js_mul (average counts) lit_1_2"
  using scaled_down [of counts] scaled_up [of counts] by simp

text \<open>With valid dates the comparison function is a consistent ordering, and the sorted
  array is the stable sort by date.\<close>

lemma js_insort_by_date:
  assumes "Date_value (timestamp x) \<noteq> None"
    and "list_all (\<lambda>u. Date_value (timestamp u) \<noteq> None) xs"
  shows "js_insort (by_timestamp Date_value) x xs = insort_key (date_of Date_value) x xs"
  using assms
  by (induction xs) (auto simp: by_timestamp_def date_of_def)

lemma js_sort_by_date:
  assumes "valid_dates Date_value xs"
  shows "js_sort (by_timestamp Date_value) xs = sort_key (date_of Date_value) xs"
  using assms
proof (induction xs)
  case Nil
  show ?case by (simp add: js_sort_def)
next
  case (Cons x xs)
  then have tail: "js_sort (by_timestamp Date_value) xs = sort_key (date_of Date_value) xs"
    by (simp add: valid_dates_def)
  have "list_all (\<lambda>u. Date_value (timestamp u) \<noteq> None) (sort_key (date_of Date_value) xs)"
    using Cons.prems by (simp add: valid_dates_def list_all_iff)
  moreover have "Date_value (timestamp x) \<noteq> None"
    using Cons.prems by (simp add: valid_dates_def)
  ultimately have "js_insort (by_timestamp Date_value) x (sort_key (date_of Date_value) xs)
                   = insort_key (date_of Date_value) x (sort_key (date_of Date_value) xs)"
    by (intro js_insort_by_date)
  with tail show ?case by (simp add: js_sort_def)
qed

text \<open>
  C4, as the code has it. The sentinel \<open>{message: 'Not enough data for trend analysis'}\<close>
  is returned exactly for fewer than 3 records, and nothing is raised. From 3 records on,
  so for 3, 4 and 5 records too, the records, when their timestamps are valid dates, are
  sorted by date, records of one date keeping their order, and the directions for tasks
  and pull requests are computed from the averages over the first three and over the
  last three records of the sorted array, which share records when there are fewer than
  6; the blocker direction is \<open>stable\<close>.
\<close>

theorem insufficient_data_amended:
  "(analyzeMemberTrends Date_value updates = Message ''Not enough data for trend analysis''
    \<longleftrightarrow> length updates < 3)
   \<and> (3 \<le> length updates \<and> valid_dates Date_value updates \<longrightarrow>
        analyzeMemberTrends Date_value updates =
          Trends \<lparr>
            taskTrend =
              direction_of
                (average (map tasks_length (slice_last3 (sort_key (date_of Date_value) updates))))
                (average (map tasks_length (take 3 (sort_key (date_of Date_value) updates)))),
            prTrend =
              direction_of
                (average (map prs_length (slice_last3 (sort_key (date_of Date_value) updates))))
                (average (map prs_length (take 3 (sort_key (date_of Date_value) updates)))),
            blockerTrend = ''stable'' \<rparr>)"
proof (intro conjI impI)
  show "analyzeMemberTrends Date_value updates = Message ''Not enough data for trend analysis''
        \<longleftrightarrow> length updates < 3"
    by (simp add: analyzeMemberTrends_def Let_def)
next
  assume a: "3 \<le> length updates \<and> valid_dates Date_value updates"
  then have "js_sort (by_timestamp Date_value) updates = sort_key (date_of Date_value) updates"
    by (intro js_sort_by_date) simp
  with a show "analyzeMemberTrends Date_value updates =
          Trends \<lparr>
            taskTrend =
              direction_of
                (average (map tasks_length (slice_last3 (sort_key (date_of Date_value) updates))))
                (average (map tasks_length (take 3 (sort_key (date_of Date_value) updates)))),
            prTrend =
              direction_of
                (average (map prs_length (slice_last3 (sort_key (date_of Date_value) updates))))
                (average (map prs_length (take 3 (sort_key (date_of Date_value) updates)))),
            blockerTrend = ''stable'' \<rparr>"
    by (simp add: analyzeMemberTrends_def Let_def direction_of_def)
qed

lemma five_updates_valid: "valid_dates example_Date_value five_updates"
  by code_simp

theorem insufficient_data_amended_witness:
  "analyzeMemberTrends example_Date_value (take 2 five_updates)
     = Message ''Not enough data for trend analysis''
   \<and> length (take 2 five_updates) < 3
   \<and> 3 \<le> length five_updates \<and> valid_dates example_Date_value five_updates
   \<and> analyzeMemberTrends example_Date_value five_updates =
        Trends \<lparr>
          taskTrend =
            direction_of
              (average (map tasks_length (slice_last3 (sort_key (date_of example_Date_value) five_updates))))
              (average (map tasks_length (take 3 (sort_key (date_of example_Date_value) five_updates)))),
          prTrend =
            direction_of
              (average (map prs_length (slice_last3 (sort_key (date_of example_Date_value) five_updates))))
              (average (map prs_length (take 3 (sort_key (date_of example_Date_value) five_updates)))),
          blockerTrend = ''stable'' \<rparr>"
proof -
  have l2: "length (take 2 five_updates) < 3" and l5: "3 \<le> length five_updates"
    by (simp_all add: five_updates_def)
  from insufficient_data_amended [of example_Date_value "take 2 five_updates"]
       insufficient_data_amended [of example_Date_value five_updates]
       l2 l5 five_updates_valid
  show ?thesis by blast
qed

text \<open>
  C4 as the specification words it fails for five records: the code computes a trend
  from the first three and the last three of them, which share the third record.
\<close>

theorem insufficient_data_counterexample:
  "length five_updates < 6
   \<and> analyzeMemberTrends example_Date_value five_updates
       = Trends \<lparr> taskTrend = ''increasing'', prTrend = ''stable'', blockerTrend = ''stable'' \<rparr>"
  by code_simp

text \<open>
  C10. With exactly three records the last three and the first three of the sorted
  array are the same three records, the two averages of every metric are equal, and
  every direction is \<open>stable\<close> (in double arithmetic too: a non-negative double is not
  above its product with 1.2 and not below its product with 0.8, rounded).
\<close>

theorem three_records_stable:
  assumes "length updates = 3"
  shows "slice_last3 (js_sort (by_timestamp Date_value) updates)
           = take 3 (js_sort (by_timestamp Date_value) updates)
         \<and> average (map tasks_length (slice_last3 (js_sort (by_timestamp Date_value) updates)))
           = average (map tasks_length (take 3 (js_sort (by_timestamp Date_value) updates)))
         \<and> average (map prs_length (slice_last3 (js_sort (by_timestamp Date_value) updates)))
           = average (map prs_length (take 3 (js_sort (by_timestamp Date_value) updates)))
         \<and> analyzeMemberTrends Date_value updates
           = Trends \<lparr> taskTrend = ''stable'', prTrend = ''stable'', blockerTrend = ''stable'' \<rparr>"
proof -
  let ?s = "js_sort (by_timestamp Date_value) updates"
  have len: "length ?s = 3" using assms by (simp add: length_js_sort)
  then have same: "slice_last3 ?s = take 3 ?s" by (simp add: slice_last3_def)
  have t: "\<not> average (map tasks_length (take 3 ?s))
             > js_mul (average (map tasks_length (take 3 ?s))) lit_1_2"
          "\<not> average (map tasks_length (take 3 ?s))
             < js_mul (average (map tasks_length (take 3 ?s))) lit_0_8"
    using scaled_up [of "map tasks_length (take 3 ?s)"]
          scaled_down [of "map tasks_length (take 3 ?s)"] by simp_all
  have p: "\<not> average (map prs_length (take 3 ?s))
             > js_mul (average (map prs_length (take 3 ?s))) lit_1_2"
          "\<not> average (map prs_length (take 3 ?s))
             < js_mul (average (map prs_length (take 3 ?s))) lit_0_8"
    using scaled_up [of "map prs_length (take 3 ?s)"]
          scaled_down [of "map prs_length (take 3 ?s)"] by simp_all
  have "analyzeMemberTrends Date_value updates
        = Trends \<lparr> taskTrend = ''stable'', prTrend = ''stable'', blockerTrend = ''stable'' \<rparr>"
    using assms t p by (simp add: analyzeMemberTrends_def Let_def same)
  with same show ?thesis by simp
qed

theorem three_records_stable_witness:
  "length three_updates = 3
   \<and> analyzeMemberTrends example_Date_value three_updates
       = Trends \<lparr> taskTrend = ''stable'', prTrend = ''stable'', blockerTrend = ''stable'' \<rparr>"
proof -
  have "length three_updates = 3" by (simp add: three_updates_def)
  with three_records_stable [of three_updates example_Date_value] show ?thesis by simp
qed

text \<open>
  C3, as the code has it. For at least 6 records sorted oldest to newest, each metric
  (linked tasks, pull requests) is averaged over the first three and over the last three
  records, and the direction is \<open>increasing\<close> exactly when the recent average is above the
  earlier average times 1.2, \<open>decreasing\<close> exactly when it is below the earlier average
  times 0.8, and \<open>stable\<close> otherwise, where the averages and the two products are the
  doubles the program computes: the quotient by 3 is rounded, and so is the product with
  the double nearest to 1.2 or 0.8.
\<close>

theorem trend_direction_amended:
  assumes "6 \<le> length updates" and "oldest_first Date_value updates"
  shows "\<exists>t. analyzeMemberTrends Date_value updates = Trends t
     \<and> (taskTrend t = ''increasing'' \<longleftrightarrow>
          average (map tasks_length (slice_last3 updates))
            > js_mul (average (map tasks_length (take 3 updates))) lit_1_2)
     \<and> (taskTrend t = ''decreasing'' \<longleftrightarrow>
          average (map tasks_length (slice_last3 updates))
            < js_mul (average (map tasks_length (take 3 updates))) lit_0_8)
     \<and> (taskTrend t = ''stable'' \<longleftrightarrow>
          js_mul (average (map tasks_length (take 3 updates))) lit_0_8
            \<le> average (map tasks_length (slice_last3 updates))
          \<and> average (map tasks_length (slice_last3 updates))
            \<le> js_mul (average (map tasks_length (take 3 updates))) lit_1_2)
     \<and> (prTrend t = ''increasing'' \<longleftrightarrow>
          average (map prs_length (slice_last3 updates))
            > js_mul (average (map prs_length (take 3 updates))) lit_1_2)
     \<and> (prTrend t = ''decreasing'' \<longleftrightarrow>
          average (map prs_length (slice_last3 updates))
            < js_mul (average (map prs_length (take 3 updates))) lit_0_8)
     \<and> (prTrend t = ''stable'' \<longleftrightarrow>
          js_mul (average (map prs_length (take 3 updates))) lit_0_8
            \<le> average (map prs_length (slice_last3 updates))
          \<and> average (map prs_length (slice_last3 updates))
            \<le> js_mul (average (map prs_length (take 3 updates))) lit_1_2)"
proof -
  have sorted: "js_sort (by_timestamp Date_value) updates = updates"
    using assms(2) unfolding oldest_first_def by (rule js_sort_sorted)
  have enough: "\<not> length updates < 3" using assms(1) by simp
  let ?t = "\<lparr> taskTrend =
               (if average (map tasks_length (slice_last3 updates))
                     > js_mul (average (map tasks_length (take 3 updates))) lit_1_2
                then ''increasing''
                else if average (map tasks_length (slice_last3 updates))
                     < js_mul (average (map tasks_length (take 3 updates))) lit_0_8
                then ''decreasing'' else ''stable''),
             prTrend =
               (if average (map prs_length (slice_last3 updates))
                     > js_mul (average (map prs_length (take 3 updates))) lit_1_2
                then ''increasing''
                else if average (map prs_length (slice_last3 updates))
                     < js_mul (average (map prs_length (take 3 updates))) lit_0_8
                then ''decreasing'' else ''stable''),
             blockerTrend = ''stable'' \<rparr>"
  have r: "analyzeMemberTrends Date_value updates = Trends ?t"
    using enough by (simp add: analyzeMemberTrends_def Let_def sorted)
  have "(taskTrend ?t = ''increasing'' \<longleftrightarrow>
          average (map tasks_length (slice_last3 updates))
            > js_mul (average (map tasks_length (take 3 updates))) lit_1_2)
     \<and> (taskTrend ?t = ''decreasing'' \<longleftrightarrow>
          average (map tasks_length (slice_last3 updates))
            < js_mul (average (map tasks_length (take 3 updates))) lit_0_8)
     \<and> (taskTrend ?t = ''stable'' \<longleftrightarrow>
          js_mul (average (map tasks_length (take 3 updates))) lit_0_8
            \<le> average (map tasks_length (slice_last3 updates))
          \<and> average (map tasks_length (slice_last3 updates))
            \<le> js_mul (average (map tasks_length (take 3 updates))) lit_1_2)"
    using thresholds_ordered [of "map tasks_length (take 3 updates)"] by auto
  moreover have "(prTrend ?t = ''increasing'' \<longleftrightarrow>
          average (map prs_length (slice_last3 updates))
            > js_mul (average (map prs_length (take 3 updates))) lit_1_2)
     \<and> (prTrend ?t = ''decreasing'' \<longleftrightarrow>
          average (map prs_length (slice_last3 updates))
            < js_mul (average (map prs_length (take 3 updates))) lit_0_8)
     \<and> (prTrend ?t = ''stable'' \<longleftrightarrow>
          js_mul (average (map prs_length (take 3 updates))) lit_0_8
            \<le> average (map prs_length (slice_last3 updates))
          \<and> average (map prs_length (slice_last3 updates))
            \<le> js_mul (average (map prs_length (take 3 updates))) lit_1_2)"
    using thresholds_ordered [of "map prs_length (take 3 updates)"] by auto
  ultimately show ?thesis using r by blast
qed

lemma boundary_updates_sorted: "oldest_first example_Date_value boundary_updates"
  by code_simp

theorem trend_direction_amended_witness:
  "6 \<le> length boundary_updates \<and> oldest_first example_Date_value boundary_updates
   \<and> (\<exists>t. analyzeMemberTrends example_Date_value boundary_updates = Trends t
        \<and> (taskTrend t = ''decreasing'' \<longleftrightarrow>
             average (map tasks_length (slice_last3 boundary_updates))
               < js_mul (average (map tasks_length (take 3 boundary_updates))) lit_0_8))"
proof -
  have l: "6 \<le> length boundary_updates" by (simp add: boundary_updates_def)
  from trend_direction_amended [OF l boundary_updates_sorted] l boundary_updates_sorted
  show ?thesis by blast
qed

lemma boundary_doubles:
  "js_div 5 3 = 7505999378950827 / 2 ^ 52"
  "js_div 4 3 = 6004799503160661 / 2 ^ 52"
  "js_mul (js_div 5 3) lit_0_8 = 6004799503160662 / 2 ^ 52"
  by code_simp+

text \<open>
  C3 as the specification words it fails on \<open>boundary_updates\<close>. The earlier task counts
  2, 2, 1 average to 5/3 and the recent ones 2, 1, 1 to 4/3, which is exactly 0.8 times
  5/3, so the specification's direction is \<open>stable\<close>. In doubles, \<open>5 / 3\<close> is
  1.6666666666666667, its product with 0.8 is 1.3333333333333335, one unit in the last
  place above \<open>4 / 3\<close>, which is 1.3333333333333333 (\<open>boundary_doubles\<close> gives the three
  values exactly), and the code answers \<open>decreasing\<close>.
\<close>

theorem trend_direction_counterexample:
  "6 \<le> length boundary_updates \<and> oldest_first example_Date_value boundary_updates
   \<and> exact_average (map tasks_length (slice_last3 boundary_updates))
       = (4 / 5) * exact_average (map tasks_length (take 3 boundary_updates))
   \<and> spec_direction (exact_average (map tasks_length (slice_last3 boundary_updates)))
        (exact_average (map tasks_length (take 3 boundary_updates))) = ''stable''
   \<and> analyzeMemberTrends example_Date_value boundary_updates
       = Trends \<lparr> taskTrend = ''decreasing'', prTrend = ''stable'', blockerTrend = ''stable'' \<rparr>"
  by code_simp

section \<open>Team metrics: the loop over the store\<close>

lemma update_absent: "map_of xs k = None \<Longrightarrow> AList.update k v xs = xs @ [(k, v)]"
  by (induction xs) (auto split: if_splits)

lemma sum_update_present:
  fixes g :: "'v \<Rightarrow> nat"
  shows "map_of xs k = Some v \<Longrightarrow>
   sum_list (map (\<lambda>kv. g (snd kv)) (AList.update k v' xs)) + g v
   = sum_list (map (\<lambda>kv. g (snd kv)) xs) + g v'"
  by (induction xs) (auto split: if_splits)

lemma standupCount_add_standup: "standupCount (add_standup s stats) = standupCount stats + 1"
  by (simp add: add_standup_def Let_def)

text \<open>
  One turn of the loop for a record whose member name is not inherited from
  \<open>Object.prototype\<close>, or which lies outside the date range: nothing is thrown, a record
  inside the range is counted once in \<open>allStandups\<close> and once for its member, and its
  blocker key, if it has one, is counted in the table.
\<close>

lemma process_standup_ordinary:
  assumes "\<not> before_start sd s \<and> \<not> after_end ed s \<longrightarrow> teamMemberName s \<notin> set object_prototype_names"
  shows "snd (process_standup sd ed s agg) = False"
    and "allStandups (fst (process_standup sd ed s agg))
         = allStandups agg @ (if \<not> before_start sd s \<and> \<not> after_end ed s then [s] else [])"
    and "blockerFrequency (fst (process_standup sd ed s agg))
         = (if \<not> before_start sd s \<and> \<not> after_end ed s \<and> has_blockers s
            then count_blocker (blockerKey s) (blockerFrequency agg) else blockerFrequency agg)"
    and "sum_list (map (\<lambda>kv. standupCount (snd kv)) (memberStats_acc (fst (process_standup sd ed s agg))))
         = sum_list (map (\<lambda>kv. standupCount (snd kv)) (memberStats_acc agg))
           + (if \<not> before_start sd s \<and> \<not> after_end ed s then 1 else 0)"
proof -
  show "snd (process_standup sd ed s agg) = False"
    using assms by (auto simp: process_standup_def Let_def split: option.split)
  show "allStandups (fst (process_standup sd ed s agg))
         = allStandups agg @ (if \<not> before_start sd s \<and> \<not> after_end ed s then [s] else [])"
    using assms by (simp add: process_standup_def Let_def split: option.split)
  show "blockerFrequency (fst (process_standup sd ed s agg))
         = (if \<not> before_start sd s \<and> \<not> after_end ed s \<and> has_blockers s
            then count_blocker (blockerKey s) (blockerFrequency agg) else blockerFrequency agg)"
    using assms by (auto simp: process_standup_def Let_def split: option.split)
  show "sum_list (map (\<lambda>kv. standupCount (snd kv)) (memberStats_acc (fst (process_standup sd ed s agg))))
         = sum_list (map (\<lambda>kv. standupCount (snd kv)) (memberStats_acc agg))
           + (if \<not> before_start sd s \<and> \<not> after_end ed s then 1 else 0)"
  proof (cases "\<not> before_start sd s \<and> \<not> after_end ed s")
    case False
    then show ?thesis by (auto simp: process_standup_def)
  next
    case True
    show ?thesis
    proof (cases "map_of (memberStats_acc agg) (teamMemberName s)")
      case None
      then show ?thesis
        using True assms
        by (simp add: process_standup_def Let_def update_absent standupCount_add_standup)
    next
      case (Some stats)
      from sum_update_present [OF Some, of standupCount "add_standup s stats"]
      show ?thesis
        using True Some by (simp add: process_standup_def Let_def standupCount_add_standup)
    qed
  qed
qed

lemma process_standups_ordinary:
  assumes "list_all (\<lambda>s. teamMemberName s \<notin> set object_prototype_names)
             (filter (\<lambda>s. \<not> before_start sd s \<and> \<not> after_end ed s) ss)"
  shows "allStandups (process_standups sd ed ss agg)
         = allStandups agg @ filter (\<lambda>s. \<not> before_start sd s \<and> \<not> after_end ed s) ss
         \<and> blockerFrequency (process_standups sd ed ss agg)
           = fold count_blocker
               (map blockerKey
                  (filter has_blockers (filter (\<lambda>s. \<not> before_start sd s \<and> \<not> after_end ed s) ss)))
               (blockerFrequency agg)
         \<and> sum_list (map (\<lambda>kv. standupCount (snd kv)) (memberStats_acc (process_standups sd ed ss agg)))
           = sum_list (map (\<lambda>kv. standupCount (snd kv)) (memberStats_acc agg))
             + length (filter (\<lambda>s. \<not> before_start sd s \<and> \<not> after_end ed s) ss)"
  using assms
proof (induction ss arbitrary: agg)
  case Nil
  show ?case by simp
next
  case (Cons s ss)
  have ord: "\<not> before_start sd s \<and> \<not> after_end ed s \<longrightarrow> teamMemberName s \<notin> set object_prototype_names"
    using Cons.prems by (auto split: if_splits)
  have rest: "list_all (\<lambda>s. teamMemberName s \<notin> set object_prototype_names)
                (filter (\<lambda>s. \<not> before_start sd s \<and> \<not> after_end ed s) ss)"
    using Cons.prems by (simp split: if_splits)
  obtain agg' where step: "process_standup sd ed s agg = (agg', False)"
    using process_standup_ordinary(1) [OF ord, of agg]
    by (cases "process_standup sd ed s agg") simp
  have agg': "agg' = fst (process_standup sd ed s agg)" using step by simp
  note facts = process_standup_ordinary(2-4) [OF ord, of agg, folded agg']
  show ?case
    using Cons.IH [OF rest, of agg'] facts by (simp add: step)
qed

lemma process_objects_ordinary:
  assumes "list_all (\<lambda>s. teamMemberName s \<notin> set object_prototype_names)
             (records_in_range sd ed objects)"
  shows "allStandups (process_objects sd ed objects agg)
         = allStandups agg @ records_in_range sd ed objects
         \<and> blockerFrequency (process_objects sd ed objects agg)
           = fold count_blocker (blocker_keys sd ed objects) (blockerFrequency agg)
         \<and> sum_list (map (\<lambda>kv. standupCount (snd kv)) (memberStats_acc (process_objects sd ed objects agg)))
           = sum_list (map (\<lambda>kv. standupCount (snd kv)) (memberStats_acc agg))
             + length (records_in_range sd ed objects)"
  using assms
proof (induction objects arbitrary: agg)
  case Nil
  show ?case by (simp add: records_in_range_def blocker_keys_def)
next
  case (Cons obj objects)
  show ?case
  proof (cases obj)
    case Unreadable
    with Cons show ?thesis
      by (simp add: records_in_range_def blocker_keys_def standups_of_def)
  next
    case (Standups ss)
    have here: "list_all (\<lambda>s. teamMemberName s \<notin> set object_prototype_names)
                  (filter (\<lambda>s. \<not> before_start sd s \<and> \<not> after_end ed s) ss)"
      and rest: "list_all (\<lambda>s. teamMemberName s \<notin> set object_prototype_names)
                  (records_in_range sd ed objects)"
      using Cons.prems Standups by (simp_all add: records_in_range_def standups_of_def)
    from process_standups_ordinary [OF here, of agg] Cons.IH [OF rest, of "process_standups sd ed ss agg"]
    show ?thesis
      using Standups by (simp add: records_in_range_def blocker_keys_def standups_of_def)
  qed
qed

text \<open>
  The invariant of C7 holds for every record set in which no member is named like a
  property of \<open>Object.prototype\<close>.
\<close>

lemma standup_counts_agree:
  assumes "list_all (\<lambda>s. teamMemberName s \<notin> set object_prototype_names)
             (records_in_range sd ed objects)"
  shows "sum_standupCount (getTeamMetrics sd ed objects) = totalStandups (getTeamMetrics sd ed objects)"
  using process_objects_ordinary [OF assms,
          of "\<lparr> allStandups = [], memberStats_acc = [], blockerFrequency = [] \<rparr>"]
  by (simp add: getTeamMetrics_def sum_standupCount_def Let_def)

text \<open>
  C7 fails for a member named \<open>constructor\<close>. \<open>memberStats['constructor']\<close> reads the
  function \<open>Object\<close>, which is truthy, so no entry is created for the member and the
  increment lands on that function, while the record is in \<open>allStandups\<close>: one standup in
  total, none in \<open>memberStats\<close>.
\<close>

theorem member_named_constructor:
  "totalStandups (getTeamMetrics None None constructor_store) = 1
   \<and> memberStats (getTeamMetrics None None constructor_store) = Some []
   \<and> sum_standupCount (getTeamMetrics None None constructor_store) = 0"
  by code_simp

section \<open>Team metrics: the blocker table and its top five\<close>





















end
